theory Spec2Isabelle
  imports Main "HOL-Library.Word"
begin

section \<open>The document facade of pkg/document/document.go\<close>

text \<open>
  The Go type \<open>Document\<close> owns an \<open>InternalDocument\<close> (the canonical state) and two
  clones that are exposed to the user's updater. The methods mutate the receiver; here
  each method takes the document and returns the document it leaves behind, together
  with what the Go method returns. A Go panic is an outcome of its own.

  The packages \<open>change\<close>, \<open>crdt\<close>, \<open>innerpresence\<close>, \<open>schema\<close> and the file that
  declares \<open>InternalDocument\<close> are not part of the source at hand. What the facade
  calls in them is either a field of the record \<open>env\<close> (a parameter of every function
  below) or a definition marked as modelled from the specification.
\<close>

subsection \<open>Errors, outcomes, values\<close>

datatype error =
    ErrDocumentRemoved
  | ErrUnsupportedPayloadType
  | ErrDocumentSizeExceedsLimit
  | ErrSchemaValidationFailed string
  | ErrOther string

text \<open>
  \<open>Return v s\<close>: the method returns \<open>v\<close> and leaves the state \<open>s\<close>.
  \<open>Panic s\<close>: the method panics, the state being \<open>s\<close> at that moment.
\<close>

datatype ('v, 's) outcome = Panic 's | Return 'v 's

fun final :: "('v, 's) outcome \<Rightarrow> 's" where
  "final (Panic s) = s"
| "final (Return v s) = s"

text \<open>A value of Go's \<open>interface{}\<close>, as far as a message argument needs it.\<close>

datatype iface = IString string | IInt int | IBool bool

datatype StatusType = StatusDetached | StatusAttached | StatusRemoved

type_synonym VersionVector = "string \<rightharpoonup> 64 word"

type_synonym Presence = "string \<rightharpoonup> string"

text \<open>\<open>innerpresence.Map\<close>: actor id to presence.\<close>

type_synonym Presences = "string \<rightharpoonup> Presence"

datatype PresenceChange = Put Presence | Clear

record Checkpoint =
  ServerSeq :: "64 word"
  ClientSeq :: "32 word"

record ChangeID =
  idClientSeq :: "32 word"
  idLamport :: "64 word"
  idActorID :: string

record 'op Change =
  chID :: ChangeID
  chMessage :: string
  chOperations :: "'op list"
  chPresenceChange :: "PresenceChange option"

text \<open>\<open>change.Context\<close>: the accumulator the updater writes to through its proxies.\<close>

record 'op Context =
  ctxID :: ChangeID
  ctxMessage :: string
  ctxOperations :: "'op list"
  ctxPresenceChange :: "PresenceChange option"

datatype Rule = Rule string string

record ValidationError =
  Message :: string

record ValidationResult =
  Valid :: bool
  Errors :: "ValidationError list"

datatype DocEventType = WatchedEvent | UnwatchedEvent | PresenceChangedEvent

record DocEvent =
  evType :: DocEventType
  evPresences :: Presences

record Options =
  DisableGC :: bool

record 'op Pack =
  Checkpoint :: Checkpoint
  Changes :: "'op Change list"
  Snapshot :: "8 word list"
  VersionVector :: VersionVector
  IsRemoved :: bool

subsection \<open>The collaborators, as parameters\<close>

text \<open>
  Every field stands for a function of a package that is not in the source. A Go method
  that mutates its receiver and returns an error returns here the error (if any) and the
  receiver as the call left it: nothing says that a failing call leaves it untouched.
\<close>

record ('r, 'op) env =
  Root_DeepCopy :: "'r \<Rightarrow> error + 'r"
  Root_DocSize_Total :: "'r \<Rightarrow> int"
  Root_GarbageCollect :: "VersionVector \<Rightarrow> 'r \<Rightarrow> (error + int) \<times> 'r"
  Change_Execute :: "'op Change \<Rightarrow> 'r \<Rightarrow> Presences \<Rightarrow> error option \<times> 'r \<times> Presences"
  ValidateYorkieRuleset :: "'r \<Rightarrow> Rule list \<Rightarrow> ValidationResult"
  Sprintf :: "string \<Rightarrow> iface list \<Rightarrow> string"
  ID_Next :: "ChangeID \<Rightarrow> ChangeID"
  ID_SyncLamport :: "ChangeID \<Rightarrow> ChangeID \<Rightarrow> ChangeID"
  Snapshot_Apply :: "8 word list \<Rightarrow> VersionVector \<Rightarrow> 'r \<times> Presences \<times> ChangeID
                       \<Rightarrow> error option \<times> 'r \<times> Presences \<times> ChangeID"
  Change_Events :: "'op Change \<Rightarrow> Presences \<Rightarrow> DocEvent list"

subsection \<open>The canonical state and the facade\<close>

record ('r, 'op) InternalDocument =
  key :: string
  status :: StatusType
  checkpoint :: Checkpoint
  changeID :: ChangeID
  root :: 'r
  presences :: Presences
  localChanges :: "'op Change list"

text \<open>
  A call into a collaborator that a claim speaks of (does the updater run, does
  validation run, does garbage collection run) is recorded in \<open>calls\<close>. The field is
  not a field of the Go struct: it is the observation of the calls the method makes.
\<close>

datatype Call =
    CallUpdater
  | CallValidateYorkieRuleset
  | CallCloneGarbageCollect VersionVector
  | CallDocGarbageCollect VersionVector

text \<open>
  \<open>events\<close> is the content sent on the channel of the same name, in order: the
  consumer is taken to drain the channel, so that a send does not block. The channels
  and handlers of Broadcast are left out: no function below touches them. A nil pointer
  is \<open>None\<close>.
\<close>

record ('r, 'op) Document =
  doc :: "('r, 'op) InternalDocument"
  options :: Options
  cloneRoot :: "'r option"
  clonePresences :: "Presences option"
  MaxSizeLimit :: int
  SchemaRules :: "Rule list"
  events :: "DocEvent list"
  calls :: "Call list"

text \<open>
  The updater is the user's closure. It receives the context and the clone root (through
  the \<open>json.Object\<close> proxy) and the context and its own presence (through the
  \<open>presence.Presence\<close> proxy), may change all three in place, and returns an error or nil.
\<close>

type_synonym ('r, 'op) updater =
  "'op Context \<Rightarrow> 'r \<Rightarrow> Presence \<Rightarrow> error option \<times> 'op Context \<times> 'r \<times> Presence"

subsection \<open>Modelled from the specification\<close>

text \<open>
  Modelled from the spec: \<open>Checkpoint.Forward\<close> (package change) is missing.
  "Forward(other) takes the max of each field". The fields are unsigned (u64, u32).
\<close>

definition Forward :: "Checkpoint \<Rightarrow> Checkpoint \<Rightarrow> Checkpoint" where
  "Forward cp other =
     \<lparr>ServerSeq = max (ServerSeq cp) (ServerSeq other),
      ClientSeq = max (ClientSeq cp) (ClientSeq other)\<rparr>"

text \<open>
  Modelled from the spec: \<open>change.NewContext\<close> and the methods of \<open>change.Context\<close>
  are missing. "HasChange(): true iff any operation or presence change recorded.
  IsPresenceOnlyChange(): no operations recorded. ToChange(): freezes the accumulator
  into a Change. NextID(): the successor timestamp."
\<close>

definition NewContext :: "ChangeID \<Rightarrow> string \<Rightarrow> 'r \<Rightarrow> 'op Context" where
  "NewContext i msg cr =
     \<lparr>ctxID = i, ctxMessage = msg, ctxOperations = [], ctxPresenceChange = None\<rparr>"

definition HasChange :: "'op Context \<Rightarrow> bool" where
  "HasChange ctx = (ctxOperations ctx \<noteq> [] \<or> ctxPresenceChange ctx \<noteq> None)"

definition IsPresenceOnlyChange :: "'op Context \<Rightarrow> bool" where
  "IsPresenceOnlyChange ctx = (ctxOperations ctx = [])"

definition ToChange :: "'op Context \<Rightarrow> 'op Change" where
  "ToChange ctx =
     \<lparr>chID = ctxID ctx, chMessage = ctxMessage ctx,
      chOperations = ctxOperations ctx, chPresenceChange = ctxPresenceChange ctx\<rparr>"

definition NextID :: "('r, 'op) env \<Rightarrow> 'op Context \<Rightarrow> ChangeID" where
  "NextID env ctx = ID_Next env (ctxID ctx)"

text \<open>Modelled from the spec: \<open>Change.ClientSeq\<close> is missing; the client_seq of a change.\<close>

definition Change_ClientSeq :: "'op Change \<Rightarrow> 32 word" where
  "Change_ClientSeq c = idClientSeq (chID c)"

text \<open>
  Modelled from the spec: \<open>innerpresence.Map.LoadOrStore\<close> is missing. "LoadOrStore(actor,
  default) returns the existing value or inserts and returns the default."
\<close>

definition LoadOrStore :: "Presences \<Rightarrow> string \<Rightarrow> Presence \<Rightarrow> Presence \<times> Presences" where
  "LoadOrStore m k v = (case m k of Some p \<Rightarrow> (p, m) | None \<Rightarrow> (v, m(k \<mapsto> v)))"

text \<open>
  Modelled from the spec: \<open>InternalDocument.applySnapshot\<close> is missing. "ApplySnapshot(bytes,
  vv): replace root and presences from decoded snapshot, set changeID". The decoding is
  the parameter \<open>Snapshot_Apply\<close>, which sees and returns these three components only.
\<close>

definition applySnapshot ::
  "('r, 'op) env \<Rightarrow> 8 word list \<Rightarrow> VersionVector \<Rightarrow> ('r, 'op) InternalDocument
     \<Rightarrow> error option \<times> ('r, 'op) InternalDocument" where
  "applySnapshot env snapshot vector idoc =
     (case Snapshot_Apply env snapshot vector (root idoc, presences idoc, changeID idoc) of
        (err, r, ps, i) \<Rightarrow> (err, idoc\<lparr>root := r, presences := ps, changeID := i\<rparr>))"

text \<open>
  Modelled from the spec: \<open>InternalDocument.ApplyChanges\<close> is missing. "For each change,
  synchronize Lamport, execute against canonical root + presences, emit presence events
  as a side output. Never mutates local changes." It stops at the first change whose
  execution fails.
\<close>

fun InternalDocument_ApplyChanges ::
  "('r, 'op) env \<Rightarrow> 'op Change list \<Rightarrow> DocEvent list \<Rightarrow> ('r, 'op) InternalDocument
     \<Rightarrow> (error + DocEvent list) \<times> ('r, 'op) InternalDocument" where
  "InternalDocument_ApplyChanges env [] evs idoc = (Inr evs, idoc)"
| "InternalDocument_ApplyChanges env (c # cs) evs idoc =
     (case Change_Execute env c (root idoc) (presences idoc) of
        (Some err, r, ps) \<Rightarrow> (Inl err, idoc\<lparr>root := r, presences := ps\<rparr>)
      | (None, r, ps) \<Rightarrow>
          InternalDocument_ApplyChanges env cs (evs @ Change_Events env c ps)
            (idoc\<lparr>root := r, presences := ps,
                  changeID := ID_SyncLamport env (changeID idoc) (chID c)\<rparr>))"

text \<open>
  Modelled from the spec: \<open>InternalDocument.GarbageCollect\<close> is missing; it collects on
  the canonical root.
\<close>

definition InternalDocument_GarbageCollect ::
  "('r, 'op) env \<Rightarrow> VersionVector \<Rightarrow> ('r, 'op) InternalDocument
     \<Rightarrow> (error + int) \<times> ('r, 'op) InternalDocument" where
  "InternalDocument_GarbageCollect env vector idoc =
     (case Root_GarbageCollect env vector (root idoc) of
        (res, r) \<Rightarrow> (res, idoc\<lparr>root := r\<rparr>))"

subsection \<open>Translated from document.go\<close>

text \<open>\<open>strings.Join\<close>.\<close>

fun Join :: "string list \<Rightarrow> string \<Rightarrow> string" where
  "Join [] sep = []"
| "Join [x] sep = x"
| "Join (x # y # ys) sep = x @ sep @ Join (y # ys) sep"

text \<open>
  \<open>messageFromMsgAndArgs\<close>. \<open>None\<close> is the panic of the type assertion
  \<open>msgAndArgs[0].(string)\<close>, which has no \<open>ok\<close> result.
\<close>

fun messageFromMsgAndArgs :: "('r, 'op) env \<Rightarrow> iface list \<Rightarrow> string option" where
  "messageFromMsgAndArgs env [] = Some []"
| "messageFromMsgAndArgs env [msg] =
     (case msg of
        IString msgAsStr \<Rightarrow> Some msgAsStr
      | _ \<Rightarrow> Some (Sprintf env ''%+v'' [msg]))"
| "messageFromMsgAndArgs env (m # a # as) =
     (case m of
        IString format \<Rightarrow> Some (Sprintf env format (a # as))
      | _ \<Rightarrow> None)"

text \<open>
  \<open>ensureClone\<close>. The deep copy of the root can fail; that of the presences cannot.
  A copy of a value is the value: the clone shares nothing with the canonical state.
\<close>

definition ensureClone ::
  "('r, 'op) env \<Rightarrow> ('r, 'op) Document \<Rightarrow> error option \<times> ('r, 'op) Document" where
  "ensureClone env d =
     (case (if cloneRoot d = None
            then (case Root_DeepCopy env (root (doc d)) of
                    Inl err \<Rightarrow> Inl err
                  | Inr copiedDoc \<Rightarrow> Inr (d\<lparr>cloneRoot := Some copiedDoc\<rparr>))
            else Inr d) of
        Inl err \<Rightarrow> (Some err, d)
      | Inr d1 \<Rightarrow>
          (None, if clonePresences d1 = None
                 then d1\<lparr>clonePresences := Some (presences (doc d1))\<rparr>
                 else d1))"

definition HasLocalChanges :: "('r, 'op) Document \<Rightarrow> bool" where
  "HasLocalChanges d = (localChanges (doc d) \<noteq> [])"

definition SetStatus :: "StatusType \<Rightarrow> ('r, 'op) Document \<Rightarrow> ('r, 'op) Document" where
  "SetStatus s d = d\<lparr>doc := (doc d)\<lparr>status := s\<rparr>\<rparr>"

definition ActorID :: "('r, 'op) Document \<Rightarrow> string" where
  "ActorID d = idActorID (changeID (doc d))"

text \<open>
  \<open>GarbageCollect\<close>: on the clone root when there is one, then on the canonical root;
  an error of either is a panic.
\<close>

definition GarbageCollect ::
  "('r, 'op) env \<Rightarrow> VersionVector \<Rightarrow> ('r, 'op) Document \<Rightarrow> (int, ('r, 'op) Document) outcome" where
  "GarbageCollect env vector d =
     (case (case cloneRoot d of
              Some cr \<Rightarrow>
                (case Root_GarbageCollect env vector cr of
                   (Inl err, cr') \<Rightarrow>
                     Inl (d\<lparr>cloneRoot := Some cr',
                            calls := calls d @ [CallCloneGarbageCollect vector]\<rparr>)
                 | (Inr n, cr') \<Rightarrow>
                     Inr (d\<lparr>cloneRoot := Some cr',
                            calls := calls d @ [CallCloneGarbageCollect vector]\<rparr>))
            | None \<Rightarrow> Inr d) of
        Inl d1 \<Rightarrow> Panic d1
      | Inr d1 \<Rightarrow>
          (case InternalDocument_GarbageCollect env vector (doc d1) of
             (Inl err, idoc) \<Rightarrow>
               Panic (d1\<lparr>doc := idoc, calls := calls d1 @ [CallDocGarbageCollect vector]\<rparr>)
           | (Inr n, idoc) \<Rightarrow>
               Return n (d1\<lparr>doc := idoc, calls := calls d1 @ [CallDocGarbageCollect vector]\<rparr>)))"

text \<open>
  \<open>Update\<close>, lines 188 to 220: what follows a successful return of the updater, which
  left the context \<open>ctx\<close> and the clone root \<open>cr\<close>. Schema validation, size check,
  commit.
\<close>

definition Update_commit ::
  "('r, 'op) env \<Rightarrow> 'op Context \<Rightarrow> 'r \<Rightarrow> ('r, 'op) Document
     \<Rightarrow> (error option, ('r, 'op) Document) outcome" where
  "Update_commit env ctx cr d =
     (case (if \<not> IsPresenceOnlyChange ctx \<and> length (SchemaRules d) > 0
            then
              (let result = ValidateYorkieRuleset env cr (SchemaRules d);
                   d1 = d\<lparr>calls := calls d @ [CallValidateYorkieRuleset]\<rparr>
               in if \<not> Valid result
                  then (Some (ErrSchemaValidationFailed
                                (Join (map Message (Errors result)) '', '')),
                        d1\<lparr>cloneRoot := None, clonePresences := None\<rparr>)
                  else (None, d1))
            else (None, d)) of
        (Some err, d1) \<Rightarrow> Return (Some err) d1
      | (None, d1) \<Rightarrow>
          (let cloneSize = Root_DocSize_Total env cr
           in if \<not> IsPresenceOnlyChange ctx \<and> MaxSizeLimit d1 > 0
                 \<and> MaxSizeLimit d1 < cloneSize
              then Return (Some ErrDocumentSizeExceedsLimit)
                     (d1\<lparr>cloneRoot := None, clonePresences := None\<rparr>)
              else if HasChange ctx
              then
                (let c = ToChange ctx
                 in case Change_Execute env c (root (doc d1)) (presences (doc d1)) of
                   (Some err, r, ps) \<Rightarrow>
                     Return (Some err) (d1\<lparr>doc := (doc d1)\<lparr>root := r, presences := ps\<rparr>\<rparr>)
                 | (None, r, ps) \<Rightarrow>
                     Return None
                       (d1\<lparr>doc := (doc d1)\<lparr>root := r, presences := ps,
                            localChanges := localChanges (doc d1) @ [c],
                            changeID := NextID env ctx\<rparr>\<rparr>))
              else Return None d1))"

text \<open>
  \<open>Update\<close>, lines 159 to 187, then \<open>Update_commit\<close>. The updater may have changed the
  clone root and its presence in place: the clones are what it left. The branch
  \<open>Panic\<close> after a successful \<open>ensureClone\<close> is the dereference of a nil clone;
  \<open>ensureClone\<close> leaves both clones set, so it is never taken.
\<close>

definition Update ::
  "('r, 'op) env \<Rightarrow> ('r, 'op) updater \<Rightarrow> iface list \<Rightarrow> ('r, 'op) Document
     \<Rightarrow> (error option, ('r, 'op) Document) outcome" where
  "Update env updater msgAndArgs d =
     (if status (doc d) = StatusRemoved then Return (Some ErrDocumentRemoved) d
      else
        (case ensureClone env d of
           (Some err, d1) \<Rightarrow> Return (Some err) d1
         | (None, d1) \<Rightarrow>
             (case messageFromMsgAndArgs env msgAndArgs of
                None \<Rightarrow> Panic d1
              | Some message \<Rightarrow>
                  (case (cloneRoot d1, clonePresences d1) of
                     (Some cr, Some cp) \<Rightarrow>
                       (let ctx = NewContext (changeID (doc d1)) message cr;
                            stored = LoadOrStore cp (ActorID d1) Map.empty
                        in case updater ctx cr (fst stored) of
                          (uerr, ctx1, cr1, p1) \<Rightarrow>
                            (let d2 = d1\<lparr>cloneRoot := Some cr1,
                                          clonePresences := Some ((snd stored)(ActorID d1 \<mapsto> p1)),
                                          calls := calls d1 @ [CallUpdater]\<rparr>
                             in case uerr of
                               Some err \<Rightarrow>
                                 Return (Some err) (d2\<lparr>cloneRoot := None, clonePresences := None\<rparr>)
                             | None \<Rightarrow> Update_commit env ctx1 cr1 d2))
                   | _ \<Rightarrow> Panic d1))))"

text \<open>The loop of \<open>applyChanges\<close> over the clone: it stops at the first failing change.\<close>

fun executeOnClone ::
  "('r, 'op) env \<Rightarrow> 'op Change list \<Rightarrow> 'r \<Rightarrow> Presences \<Rightarrow> error option \<times> 'r \<times> Presences" where
  "executeOnClone env [] cr cp = (None, cr, cp)"
| "executeOnClone env (c # cs) cr cp =
     (case Change_Execute env c cr cp of
        (Some err, cr', cp') \<Rightarrow> (Some err, cr', cp')
      | (None, cr', cp') \<Rightarrow> executeOnClone env cs cr' cp')"

definition applyChanges ::
  "('r, 'op) env \<Rightarrow> 'op Change list \<Rightarrow> ('r, 'op) Document
     \<Rightarrow> (error option, ('r, 'op) Document) outcome" where
  "applyChanges env changes d =
     (case ensureClone env d of
        (Some err, d1) \<Rightarrow> Return (Some err) d1
      | (None, d1) \<Rightarrow>
          (case (cloneRoot d1, clonePresences d1) of
             (Some cr, Some cp) \<Rightarrow>
               (case executeOnClone env changes cr cp of
                  (Some err, cr', cp') \<Rightarrow>
                    Return (Some err) (d1\<lparr>cloneRoot := Some cr', clonePresences := Some cp'\<rparr>)
                | (None, cr', cp') \<Rightarrow>
                    (let d2 = d1\<lparr>cloneRoot := Some cr', clonePresences := Some cp'\<rparr>
                     in case InternalDocument_ApplyChanges env changes [] (doc d2) of
                       (Inl err, idoc) \<Rightarrow> Return (Some err) (d2\<lparr>doc := idoc\<rparr>)
                     | (Inr evs, idoc) \<Rightarrow>
                         Return None (d2\<lparr>doc := idoc, events := events d2 @ evs\<rparr>)))
           | _ \<Rightarrow> Panic d1))"

text \<open>
  The loop of step 02 of \<open>ApplyChangePack\<close>: while there are local changes, look at the
  first; stop when its client sequence is above the pack's, drop it otherwise.
\<close>

fun removeApplied :: "32 word \<Rightarrow> 'op Change list \<Rightarrow> 'op Change list" where
  "removeApplied cseq [] = []"
| "removeApplied cseq (c # cs) =
     (if Change_ClientSeq c > cseq then c # cs else removeApplied cseq cs)"

definition ApplyChangePack ::
  "('r, 'op) env \<Rightarrow> 'op Pack \<Rightarrow> ('r, 'op) Document
     \<Rightarrow> (error option, ('r, 'op) Document) outcome" where
  "ApplyChangePack env pack d =
     (let hasSnapshot = (length (Snapshot pack) > 0)
      in case (if hasSnapshot
               then
                 (let d0 = d\<lparr>cloneRoot := None, clonePresences := None\<rparr>
                  in case applySnapshot env (Snapshot pack) (VersionVector pack) (doc d0) of
                    (err, idoc) \<Rightarrow> Return err (d0\<lparr>doc := idoc\<rparr>))
               else applyChanges env (Changes pack) d) of
        Panic d1 \<Rightarrow> Panic d1
      | Return (Some err) d1 \<Rightarrow> Return (Some err) d1
      | Return None d1 \<Rightarrow>
          (let d2 = d1\<lparr>doc := (doc d1)\<lparr>localChanges :=
                      removeApplied (ClientSeq (Checkpoint pack)) (localChanges (doc d1))\<rparr>\<rparr>
           in case (if length (Snapshot pack) > 0
                    then applyChanges env (localChanges (doc d2)) d2
                    else Return None d2) of
             Panic d3 \<Rightarrow> Panic d3
           | Return (Some err) d3 \<Rightarrow> Return (Some err) d3
           | Return None d3 \<Rightarrow>
               (let d4 = d3\<lparr>doc := (doc d3)\<lparr>checkpoint :=
                           Forward (checkpoint (doc d3)) (Checkpoint pack)\<rparr>\<rparr>
                in case (if \<not> DisableGC (options d4) \<and> \<not> hasSnapshot
                         then GarbageCollect env (VersionVector pack) d4
                         else Return 0 d4) of
                  Panic d5 \<Rightarrow> Panic d5
                | Return n d5 \<Rightarrow>
                    Return None (if IsRemoved pack then SetStatus StatusRemoved d5 else d5))))"

text \<open>
  What the updater returns in a call of \<open>Update\<close>: the error or nil, the context
  with what it recorded, the clone root and the presence as it left them. \<open>None\<close> when
  \<open>Update\<close> does not get as far as calling it (lines 163 to 179 of document.go).
\<close>

definition updaterResult ::
  "('r, 'op) env \<Rightarrow> ('r, 'op) updater \<Rightarrow> iface list \<Rightarrow> ('r, 'op) Document
     \<Rightarrow> (error option \<times> 'op Context \<times> 'r \<times> Presence) option" where
  "updaterResult env updater msgAndArgs d =
     (if status (doc d) = StatusRemoved then None
      else
        (case ensureClone env d of
           (Some err, d1) \<Rightarrow> None
         | (None, d1) \<Rightarrow>
             (case messageFromMsgAndArgs env msgAndArgs of
                None \<Rightarrow> None
              | Some message \<Rightarrow>
                  (case (cloneRoot d1, clonePresences d1) of
                     (Some cr, Some cp) \<Rightarrow>
                       Some (updater (NewContext (changeID (doc d1)) message cr) cr
                               (fst (LoadOrStore cp (ActorID d1) Map.empty)))
                   | _ \<Rightarrow> None))))"

text \<open>What a method returned; \<open>None\<close> when it panicked.\<close>

fun returned :: "('v, 's) outcome \<Rightarrow> 'v option" where
  "returned (Panic s) = None"
| "returned (Return v s) = Some v"

section \<open>A small instance of the collaborators\<close>

text \<open>
  A root that maps keys to integers, with two operations. Removing a key that is not
  there fails. A change executes its operations in order and stops at the first that
  fails, leaving the root as the earlier ones made it; then it applies its presence
  change. The theorems below hold for every instance; this one makes them concrete.
\<close>

datatype KvOp = SetKey string int | RemoveKey string

type_synonym KvRoot = "(string \<times> int) list"

fun kv_op :: "KvOp \<Rightarrow> KvRoot \<Rightarrow> error option \<times> KvRoot" where
  "kv_op (SetKey k v) r = (None, filter (\<lambda>e. fst e \<noteq> k) r @ [(k, v)])"
| "kv_op (RemoveKey k) r =
     (if k \<in> set (map fst r) then (None, filter (\<lambda>e. fst e \<noteq> k) r)
      else (Some (ErrOther ''key not found''), r))"

fun kv_ops :: "KvOp list \<Rightarrow> KvRoot \<Rightarrow> error option \<times> KvRoot" where
  "kv_ops [] r = (None, r)"
| "kv_ops (x # xs) r =
     (case kv_op x r of (Some err, r') \<Rightarrow> (Some err, r') | (None, r') \<Rightarrow> kv_ops xs r')"

definition kv_Execute ::
  "KvOp Change \<Rightarrow> KvRoot \<Rightarrow> Presences \<Rightarrow> error option \<times> KvRoot \<times> Presences" where
  "kv_Execute c r ps =
     (case kv_ops (chOperations c) r of
        (Some err, r') \<Rightarrow> (Some err, r', ps)
      | (None, r') \<Rightarrow>
          (None, r',
           (case chPresenceChange c of
              None \<Rightarrow> ps
            | Some (Put p) \<Rightarrow> ps(idActorID (chID c) \<mapsto> p)
            | Some Clear \<Rightarrow> ps(idActorID (chID c) := None))))"

fun rulePath :: "Rule \<Rightarrow> string" where
  "rulePath (Rule path ty) = path"

text \<open>A rule asks for its path to be a key of the root.\<close>

definition kv_Validate :: "KvRoot \<Rightarrow> Rule list \<Rightarrow> ValidationResult" where
  "kv_Validate r rules =
     (let missing = filter (\<lambda>rule. rulePath rule \<notin> set (map fst r)) rules
      in \<lparr>Valid = (missing = []),
          Errors = map (\<lambda>rule. \<lparr>Message = ''missing '' @ rulePath rule\<rparr>) missing\<rparr>)"

text \<open>A snapshot decodes to the empty root, unless it is empty or its first byte is 255.\<close>

definition kv_Snapshot ::
  "8 word list \<Rightarrow> VersionVector \<Rightarrow> KvRoot \<times> Presences \<times> ChangeID
     \<Rightarrow> error option \<times> KvRoot \<times> Presences \<times> ChangeID" where
  "kv_Snapshot bytes vector st =
     (case st of (r, ps, i) \<Rightarrow>
        (case bytes of
           [] \<Rightarrow> (Some (ErrOther ''bad snapshot''), r, ps, i)
         | b # bs \<Rightarrow>
             (if b = 255 then (Some (ErrOther ''bad snapshot''), r, ps, i)
              else (None, [], Map.empty, i))))"

definition kv_env :: "(KvRoot, KvOp) env" where
  "kv_env =
     \<lparr>Root_DeepCopy = Inr,
      Root_DocSize_Total = (\<lambda>r. int (length r)),
      Root_GarbageCollect = (\<lambda>vector r. (Inr 0, r)),
      Change_Execute = kv_Execute,
      ValidateYorkieRuleset = kv_Validate,
      Sprintf = (\<lambda>format args. format),
      ID_Next = (\<lambda>i. i\<lparr>idClientSeq := idClientSeq i + 1, idLamport := idLamport i + 1\<rparr>),
      ID_SyncLamport = (\<lambda>i j. i\<lparr>idLamport := max (idLamport i) (idLamport j) + 1\<rparr>),
      Snapshot_Apply = kv_Snapshot,
      Change_Events = (\<lambda>c ps. [])\<rparr>"

text \<open>A fresh, attached document of actor \<open>A\<close>: empty root, no clones, no limits.\<close>

definition kv_doc :: "(KvRoot, KvOp) Document" where
  "kv_doc =
     \<lparr>doc = \<lparr>key = ''k'', status = StatusAttached,
             checkpoint = \<lparr>ServerSeq = 0, ClientSeq = 0\<rparr>,
             changeID = \<lparr>idClientSeq = 0, idLamport = 0, idActorID = ''A''\<rparr>,
             root = [], presences = Map.empty, localChanges = []\<rparr>,
      options = \<lparr>DisableGC = False\<rparr>,
      cloneRoot = None, clonePresences = None,
      MaxSizeLimit = 0, SchemaRules = [],
      events = [], calls = []\<rparr>"

text \<open>
  Updaters as a user writes them through the proxy: each operation changes the clone
  root and is recorded in the context. \<open>kv_edit\<close> stops at the first operation the
  clone refuses and returns its error.
\<close>

definition kv_edit :: "KvOp list \<Rightarrow> (KvRoot, KvOp) updater" where
  "kv_edit ops ctx cr p =
     (case kv_ops ops cr of
        (Some err, cr') \<Rightarrow> (Some err, ctx, cr', p)
      | (None, cr') \<Rightarrow> (None, ctx\<lparr>ctxOperations := ctxOperations ctx @ ops\<rparr>, cr', p))"

text \<open>An updater that edits and then fails, as \<open>r["y"] = 2; error("boom")\<close>.\<close>

definition kv_boom :: "(KvRoot, KvOp) updater" where
  "kv_boom ctx cr p =
     (Some (ErrOther ''boom''),
      ctx\<lparr>ctxOperations := ctxOperations ctx @ [SetKey ''y'' 2]\<rparr>,
      filter (\<lambda>e. fst e \<noteq> ''y'') cr @ [(''y'', 2)], p)"

text \<open>An updater that only sets a presence key.\<close>

definition kv_presence :: "(KvRoot, KvOp) updater" where
  "kv_presence ctx cr p =
     (None, ctx\<lparr>ctxPresenceChange := Some (Put (p(''cursor'' \<mapsto> ''1'')))\<rparr>, cr,
      p(''cursor'' \<mapsto> ''1''))"

text \<open>An updater that does nothing.\<close>

definition kv_noop :: "(KvRoot, KvOp) updater" where
  "kv_noop ctx cr p = (None, ctx, cr, p)"

text \<open>
  The fresh document after \<open>d.Root().SetInteger("zz", 1)\<close>: \<open>Root\<close> makes the clone and
  hands out a proxy that writes to the clone root only, so the clone has a key that the
  canonical root has not.
\<close>

definition kv_diverged :: "(KvRoot, KvOp) Document" where
  "kv_diverged = kv_doc\<lparr>cloneRoot := Some [(''zz'', 1)], clonePresences := Some Map.empty\<rparr>"

text \<open>A document with a size limit of one entry and one schema rule.\<close>

definition kv_limited :: "(KvRoot, KvOp) Document" where
  "kv_limited = kv_doc\<lparr>MaxSizeLimit := 1, SchemaRules := [Rule ''title'' ''string'']\<rparr>"

text \<open>A document with a size limit of one entry and no schema rule.\<close>

definition kv_small :: "(KvRoot, KvOp) Document" where
  "kv_small = kv_doc\<lparr>MaxSizeLimit := 1\<rparr>"

text \<open>A document with three schema rules and no size limit.\<close>

definition kv_three_rules :: "(KvRoot, KvOp) Document" where
  "kv_three_rules =
     kv_doc\<lparr>SchemaRules :=
       [Rule ''title'' ''string'', Rule ''body'' ''string'', Rule ''author'' ''string'']\<rparr>"

text \<open>Packs of the server: one that acknowledges and removes, one that only acknowledges.\<close>

definition kv_remove_pack :: "KvOp Pack" where
  "kv_remove_pack =
     \<lparr>Checkpoint = \<lparr>ServerSeq = 1, ClientSeq = 1\<rparr>, Changes = [], Snapshot = [],
      VersionVector = Map.empty, IsRemoved = True\<rparr>"

definition kv_ack_pack :: "KvOp Pack" where
  "kv_ack_pack =
     \<lparr>Checkpoint = \<lparr>ServerSeq = 2, ClientSeq = 2\<rparr>, Changes = [], Snapshot = [],
      VersionVector = Map.empty, IsRemoved = False\<rparr>"

text \<open>A change of actor \<open>B\<close> with client sequence \<open>n\<close> and the given operations.\<close>

definition kv_change :: "32 word \<Rightarrow> KvOp list \<Rightarrow> KvOp Change" where
  "kv_change n ops =
     \<lparr>chID = \<lparr>idClientSeq = n, idLamport = 1, idActorID = ''B''\<rparr>, chMessage = [],
      chOperations = ops, chPresenceChange = None\<rparr>"


text \<open>
  The fresh document after a successful \<open>Update\<close> and a pack that removes it: its status
  is Removed and its clones are those of the \<open>Update\<close>.
\<close>

definition kv_removed :: "(KvRoot, KvOp) Document" where
  "kv_removed =
     final (ApplyChangePack kv_env kv_remove_pack
              (final (Update kv_env (kv_edit [SetKey ''x'' 1]) [] kv_doc)))"

text \<open>A document with three local changes, of client sequences 1, 2 and 3.\<close>

definition kv_three :: "(KvRoot, KvOp) Document" where
  "kv_three =
     kv_doc\<lparr>doc := (doc kv_doc)\<lparr>localChanges :=
       [kv_change 1 [SetKey ''a'' 1], kv_change 2 [SetKey ''b'' 2], kv_change 3 [SetKey ''c'' 3]]\<rparr>\<rparr>"

section \<open>Lemmas on Update\<close>

lemma ensureClone_err:
  "ensureClone env d = (Some e, d1) \<Longrightarrow> d1 = d \<and> cloneRoot d = None"
  by (auto simp: ensureClone_def split: sum.splits if_splits)

lemma ensureClone_ok:
  "ensureClone env d = (None, d1) \<Longrightarrow>
     doc d1 = doc d \<and> cloneRoot d1 \<noteq> None \<and> clonePresences d1 \<noteq> None \<and> calls d1 = calls d
     \<and> MaxSizeLimit d1 = MaxSizeLimit d \<and> SchemaRules d1 = SchemaRules d \<and> options d1 = options d
     \<and> events d1 = events d"
  by (auto simp: ensureClone_def split: sum.splits if_splits)

lemma ensureClone_rebuild:
  "cloneRoot d = None \<Longrightarrow> clonePresences d = None \<Longrightarrow> Root_DeepCopy env (root (doc d)) = Inr r \<Longrightarrow>
     ensureClone env d = (None, d\<lparr>cloneRoot := Some r, clonePresences := Some (presences (doc d))\<rparr>)"
  by (simp add: ensureClone_def)

text \<open>When the updater is not called: the guard, a failed deep copy, or the panic.\<close>

lemma Update_not_called:
  assumes "updaterResult env upd args d = None"
  shows "(status (doc d) = StatusRemoved \<and> Update env upd args d = Return (Some ErrDocumentRemoved) d)
       \<or> (status (doc d) \<noteq> StatusRemoved \<and> cloneRoot d = None
            \<and> (\<exists>e. ensureClone env d = (Some e, d) \<and> Update env upd args d = Return (Some e) d))
       \<or> (status (doc d) \<noteq> StatusRemoved
            \<and> (\<exists>d1. ensureClone env d = (None, d1) \<and> Update env upd args d = Panic d1))"
proof (cases "status (doc d) = StatusRemoved")
  case True
  then show ?thesis by (simp add: Update_def)
next
  case False
  obtain r d1 where ec: "ensureClone env d = (r, d1)" by (cases "ensureClone env d")
  show ?thesis
  proof (cases r)
    case None
    with assms False ec show ?thesis
      by (auto simp: Update_def updaterResult_def dest: ensureClone_ok
               split: option.splits)
  next
    case (Some e)
    with ec ensureClone_err [of env d e d1] False show ?thesis
      by (simp add: Update_def)
  qed
qed

text \<open>When the updater is called: the document it leaves, and how \<open>Update\<close> goes on.\<close>

lemma Update_called:
  assumes "updaterResult env upd args d = Some (uerr, ctx1, cr1, p1)"
  shows "\<exists>d2. doc d2 = doc d \<and> calls d2 = calls d @ [CallUpdater]
            \<and> MaxSizeLimit d2 = MaxSizeLimit d \<and> SchemaRules d2 = SchemaRules d
            \<and> options d2 = options d \<and> events d2 = events d
            \<and> cloneRoot d2 = Some cr1 \<and> clonePresences d2 \<noteq> None
            \<and> status (doc d) \<noteq> StatusRemoved
            \<and> Update env upd args d =
                (case uerr of
                   Some err \<Rightarrow> Return (Some err) (d2\<lparr>cloneRoot := None, clonePresences := None\<rparr>)
                 | None \<Rightarrow> Update_commit env ctx1 cr1 d2)"
proof -
  from assms have ns: "status (doc d) \<noteq> StatusRemoved"
    by (auto simp: updaterResult_def split: if_splits)
  from assms ns obtain d1 where ec: "ensureClone env d = (None, d1)"
    by (cases "ensureClone env d") (auto simp: updaterResult_def split: option.splits)
  from assms ns ec obtain message cr cp where
    m: "messageFromMsgAndArgs env args = Some message"
    and cr: "cloneRoot d1 = Some cr" and cp: "clonePresences d1 = Some cp"
    and u: "upd (NewContext (changeID (doc d1)) message cr) cr
              (fst (LoadOrStore cp (ActorID d1) Map.empty)) = (uerr, ctx1, cr1, p1)"
    by (auto simp: updaterResult_def split: option.splits)
  let ?d2 = "d1\<lparr>cloneRoot := Some cr1,
               clonePresences := Some ((snd (LoadOrStore cp (ActorID d1) Map.empty))(ActorID d1 \<mapsto> p1)),
               calls := calls d1 @ [CallUpdater]\<rparr>"
  have "Update env upd args d =
          (case uerr of
             Some err \<Rightarrow> Return (Some err) (?d2\<lparr>cloneRoot := None, clonePresences := None\<rparr>)
           | None \<Rightarrow> Update_commit env ctx1 cr1 ?d2)"
    using ns ec m cr cp u by (simp add: Update_def Let_def)
  moreover have "doc ?d2 = doc d" "calls ?d2 = calls d @ [CallUpdater]"
    "MaxSizeLimit ?d2 = MaxSizeLimit d" "SchemaRules ?d2 = SchemaRules d"
    "options ?d2 = options d" "events ?d2 = events d"
    using ensureClone_ok [OF ec] by simp_all
  moreover have "cloneRoot ?d2 = Some cr1" "clonePresences ?d2 \<noteq> None" by simp_all
  ultimately show ?thesis using ns by blast
qed

text \<open>The three ways out of \<open>Update_commit\<close> with an error.\<close>

lemma Update_commit_error:
  assumes "Update_commit env ctx cr d = Return (Some e) d'"
  shows "(\<not> IsPresenceOnlyChange ctx \<and> SchemaRules d \<noteq> []
            \<and> \<not> Valid (ValidateYorkieRuleset env cr (SchemaRules d))
            \<and> e = ErrSchemaValidationFailed
                    (Join (map Message (Errors (ValidateYorkieRuleset env cr (SchemaRules d)))) '', '')
            \<and> doc d' = doc d \<and> cloneRoot d' = None \<and> clonePresences d' = None)
       \<or> (\<not> IsPresenceOnlyChange ctx \<and> 0 < MaxSizeLimit d \<and> MaxSizeLimit d < Root_DocSize_Total env cr
            \<and> e = ErrDocumentSizeExceedsLimit
            \<and> doc d' = doc d \<and> cloneRoot d' = None \<and> clonePresences d' = None)
       \<or> (HasChange ctx
            \<and> (SchemaRules d = [] \<or> IsPresenceOnlyChange ctx
                 \<or> Valid (ValidateYorkieRuleset env cr (SchemaRules d)))
            \<and> \<not> (\<not> IsPresenceOnlyChange ctx \<and> 0 < MaxSizeLimit d
                    \<and> MaxSizeLimit d < Root_DocSize_Total env cr)
            \<and> (\<exists>r ps. Change_Execute env (ToChange ctx) (root (doc d)) (presences (doc d))
                          = (Some e, r, ps)
                       \<and> doc d' = (doc d)\<lparr>root := r, presences := ps\<rparr>))"
  using assms unfolding Update_commit_def
  by (auto simp: Let_def split: if_splits prod.splits option.splits)

lemma Update_commit_success:
  assumes "Update_commit env ctx cr d = Return None d'"
  shows "localChanges (doc d') = localChanges (doc d) @ (if HasChange ctx then [ToChange ctx] else [])"
  using assms unfolding Update_commit_def
  by (auto simp: Let_def split: if_splits prod.splits option.splits)

lemma Update_commit_schema:
  assumes "\<not> IsPresenceOnlyChange ctx" "SchemaRules d \<noteq> []"
    "\<not> Valid (ValidateYorkieRuleset env cr (SchemaRules d))"
  shows "Update_commit env ctx cr d =
           Return (Some (ErrSchemaValidationFailed
                     (Join (map Message (Errors (ValidateYorkieRuleset env cr (SchemaRules d)))) '', '')))
             (d\<lparr>calls := calls d @ [CallValidateYorkieRuleset],
                cloneRoot := None, clonePresences := None\<rparr>)"
  using assms by (simp add: Update_commit_def Let_def)

lemma Update_commit_size:
  assumes "\<not> IsPresenceOnlyChange ctx"
    "SchemaRules d = [] \<or> Valid (ValidateYorkieRuleset env cr (SchemaRules d))"
    "0 < MaxSizeLimit d" "MaxSizeLimit d < Root_DocSize_Total env cr"
  shows "\<exists>d'. Update_commit env ctx cr d = Return (Some ErrDocumentSizeExceedsLimit) d'
            \<and> cloneRoot d' = None \<and> clonePresences d' = None \<and> doc d' = doc d"
  using assms by (auto simp: Update_commit_def Let_def)

lemma Update_commit_calls:
  "calls (final (Update_commit env ctx cr d)) =
     calls d @ (if \<not> IsPresenceOnlyChange ctx \<and> length (SchemaRules d) > 0
                then [CallValidateYorkieRuleset] else [])"
  unfolding Update_commit_def
  by (auto simp: Let_def split: if_splits prod.splits option.splits)

lemma Update_commit_no_change:
  assumes "\<not> HasChange ctx"
  shows "Update_commit env ctx cr d = Return None d"
  using assms by (simp add: Update_commit_def HasChange_def IsPresenceOnlyChange_def)

text \<open>\<open>Join\<close> concatenates: the first element, then each other one after the separator.\<close>

lemma Join_concat:
  "Join (m # ms) sep = m @ concat (map (\<lambda>x. sep @ x) ms)"
  by (induction ms arbitrary: m) simp_all

section \<open>Lemmas on ApplyChangePack\<close>

lemma InternalDocument_ApplyChanges_frame:
  "InternalDocument_ApplyChanges env cs evs idoc = (res, idoc') \<Longrightarrow>
     localChanges idoc' = localChanges idoc \<and> checkpoint idoc' = checkpoint idoc
     \<and> status idoc' = status idoc \<and> key idoc' = key idoc"
proof (induction cs arbitrary: evs idoc)
  case Nil
  then show ?case by simp
next
  case (Cons c cs)
  obtain err r ps where ex: "Change_Execute env c (root idoc) (presences idoc) = (err, r, ps)"
    by (cases "Change_Execute env c (root idoc) (presences idoc)")
  show ?case
  proof (cases err)
    case None
    with Cons.prems ex have
      "InternalDocument_ApplyChanges env cs (evs @ Change_Events env c ps)
         (idoc\<lparr>root := r, presences := ps,
               changeID := ID_SyncLamport env (changeID idoc) (chID c)\<rparr>) = (res, idoc')"
      by simp
    from Cons.IH [OF this] show ?thesis by simp
  next
    case (Some e)
    with Cons.prems ex show ?thesis by auto
  qed
qed

lemma applyChanges_frame:
  "applyChanges env cs d = out \<Longrightarrow>
     localChanges (doc (final out)) = localChanges (doc d)
     \<and> checkpoint (doc (final out)) = checkpoint (doc d)
     \<and> status (doc (final out)) = status (doc d)
     \<and> calls (final out) = calls d \<and> options (final out) = options d"
  unfolding applyChanges_def
  by (auto dest!: ensureClone_ok ensureClone_err InternalDocument_ApplyChanges_frame
           simp: Let_def split: prod.splits option.splits sum.splits)


lemma applySnapshot_frame:
  "applySnapshot env bytes vector idoc = (err, idoc') \<Longrightarrow>
     localChanges idoc' = localChanges idoc \<and> checkpoint idoc' = checkpoint idoc
     \<and> status idoc' = status idoc"
  by (auto simp: applySnapshot_def split: prod.splits)

lemma GarbageCollect_frame:
  "GarbageCollect env vector d = out \<Longrightarrow>
     localChanges (doc (final out)) = localChanges (doc d)
     \<and> checkpoint (doc (final out)) = checkpoint (doc d)
     \<and> status (doc (final out)) = status (doc d)"
  unfolding GarbageCollect_def InternalDocument_GarbageCollect_def
  by (auto split: prod.splits option.splits sum.splits)


lemma removeApplied_suffix:
  "\<exists>acked. cs = acked @ removeApplied cseq cs \<and> (\<forall>c \<in> set acked. Change_ClientSeq c \<le> cseq)"
proof (induction cs)
  case Nil
  then show ?case by simp
next
  case (Cons c cs)
  show ?case
  proof (cases "Change_ClientSeq c > cseq")
    case True
    then show ?thesis by simp
  next
    case False
    from Cons.IH obtain acked where
      "cs = acked @ removeApplied cseq cs" "\<forall>x \<in> set acked. Change_ClientSeq x \<le> cseq"
      by blast
    with False have "c # cs = (c # acked) @ removeApplied cseq (c # cs)
        \<and> (\<forall>x \<in> set (c # acked). Change_ClientSeq x \<le> cseq)"
      by (simp add: not_less)
    then show ?thesis by blast
  qed
qed

lemma removeApplied_above:
  "sorted_wrt (<) (map Change_ClientSeq cs) \<Longrightarrow>
     \<forall>c \<in> set (removeApplied cseq cs). cseq < Change_ClientSeq c"
proof (induction cs)
  case Nil
  then show ?case by simp
next
  case (Cons c cs)
  show ?case
  proof (cases "Change_ClientSeq c > cseq")
    case True
    with Cons.prems show ?thesis by (auto intro: less_trans)
  next
    case False
    with Cons show ?thesis by simp
  qed
qed

text \<open>The local changes and the checkpoint that a successful \<open>ApplyChangePack\<close> leaves.\<close>

lemma ApplyChangePack_success:
  assumes "ApplyChangePack env p d = Return None d'"
  shows "localChanges (doc d') = removeApplied (ClientSeq (Checkpoint p)) (localChanges (doc d))"
    and "checkpoint (doc d') = Forward (checkpoint (doc d)) (Checkpoint p)"
    and "status (doc d') = (if IsRemoved p then StatusRemoved else status (doc d))"
  using assms unfolding ApplyChangePack_def
  by (auto simp: Let_def SetStatus_def
           dest!: applyChanges_frame applySnapshot_frame GarbageCollect_frame
           split: prod.splits option.splits outcome.splits if_splits)

section \<open>The status plays no part in ApplyChangePack\<close>

lemma ensureClone_SetStatus:
  "ensureClone env (SetStatus s d) = (fst (ensureClone env d), SetStatus s (snd (ensureClone env d)))"
  by (auto simp: ensureClone_def SetStatus_def split: sum.splits)

lemma InternalDocument_ApplyChanges_status:
  "InternalDocument_ApplyChanges env cs evs (idoc\<lparr>status := s\<rparr>) =
     (fst (InternalDocument_ApplyChanges env cs evs idoc),
      (snd (InternalDocument_ApplyChanges env cs evs idoc))\<lparr>status := s\<rparr>)"
proof (induction cs arbitrary: evs idoc)
  case Nil
  then show ?case by simp
next
  case (Cons c cs)
  obtain err r ps where ex: "Change_Execute env c (root idoc) (presences idoc) = (err, r, ps)"
    by (cases "Change_Execute env c (root idoc) (presences idoc)")
  show ?case
  proof (cases err)
    case None
    let ?i = "idoc\<lparr>root := r, presences := ps,
                     changeID := ID_SyncLamport env (changeID idoc) (chID c)\<rparr>"
    have eq: "idoc\<lparr>status := s, root := r, presences := ps,
                   changeID := ID_SyncLamport env (changeID idoc) (chID c)\<rparr> = ?i\<lparr>status := s\<rparr>"
      by simp
    have "InternalDocument_ApplyChanges env (c # cs) evs (idoc\<lparr>status := s\<rparr>) =
            InternalDocument_ApplyChanges env cs (evs @ Change_Events env c ps) (?i\<lparr>status := s\<rparr>)"
      using None ex by (simp only: eq [symmetric]) simp
    also have "\<dots> = (fst (InternalDocument_ApplyChanges env cs (evs @ Change_Events env c ps) ?i),
                     (snd (InternalDocument_ApplyChanges env cs (evs @ Change_Events env c ps) ?i))
                       \<lparr>status := s\<rparr>)"
      by (rule Cons.IH)
    also have "InternalDocument_ApplyChanges env cs (evs @ Change_Events env c ps) ?i =
                 InternalDocument_ApplyChanges env (c # cs) evs idoc"
      using None ex by simp
    finally show ?thesis .
  next
    case (Some e)
    with ex show ?thesis by simp
  qed
qed

lemma applyChanges_SetStatus:
  "applyChanges env cs (SetStatus s d) = map_outcome id (SetStatus s) (applyChanges env cs d)"
proof -
  obtain r d1 where ec: "ensureClone env d = (r, d1)" by (cases "ensureClone env d")
  have doc1: "doc (SetStatus s x) = (doc x)\<lparr>status := s\<rparr>" for x :: "('a, 'b) Document"
    by (simp add: SetStatus_def)
  show ?thesis
  proof (cases r)
    case (Some e)
    with ec show ?thesis unfolding applyChanges_def ensureClone_SetStatus by simp
  next
    case None
    show ?thesis
    proof (cases "cloneRoot d1")
      case None
      with ec \<open>r = None\<close> show ?thesis
        unfolding applyChanges_def ensureClone_SetStatus by (simp add: SetStatus_def)
    next
      case (Some cr)
      note cr = this
      show ?thesis
      proof (cases "clonePresences d1")
        case None
        with ec \<open>r = None\<close> cr show ?thesis
          unfolding applyChanges_def ensureClone_SetStatus by (simp add: SetStatus_def)
      next
        case (Some cp)
        obtain err cr' cp' where ex: "executeOnClone env cs cr cp = (err, cr', cp')"
          by (cases "executeOnClone env cs cr cp")
        obtain res idoc where ia: "InternalDocument_ApplyChanges env cs [] (doc d1) = (res, idoc)"
          by (cases "InternalDocument_ApplyChanges env cs [] (doc d1)")
        from ia have ia': "InternalDocument_ApplyChanges env cs [] ((doc d1)\<lparr>status := s\<rparr>)
                            = (res, idoc\<lparr>status := s\<rparr>)"
          by (simp add: InternalDocument_ApplyChanges_status)
        from ec \<open>r = None\<close> cr Some ex ia ia' show ?thesis
          unfolding applyChanges_def ensureClone_SetStatus
          by (cases err; cases res) (simp_all add: SetStatus_def Let_def)
      qed
    qed
  qed
qed

lemma GarbageCollect_SetStatus:
  "GarbageCollect env vector (SetStatus s d) = map_outcome id (SetStatus s) (GarbageCollect env vector d)"
  unfolding GarbageCollect_def InternalDocument_GarbageCollect_def SetStatus_def
  by (auto split: option.splits prod.splits sum.splits)

lemma applySnapshot_status:
  "applySnapshot env bytes vector (idoc\<lparr>status := s\<rparr>) =
     (fst (applySnapshot env bytes vector idoc), (snd (applySnapshot env bytes vector idoc))\<lparr>status := s\<rparr>)"
  by (auto simp: applySnapshot_def split: prod.splits)


lemma case_map_outcome:
  "(case map_outcome id h x of Panic a \<Rightarrow> f a | Return v a \<Rightarrow> g v a) =
     (case x of Panic a \<Rightarrow> f (h a) | Return v a \<Rightarrow> g v (h a))"
  by (cases x) simp_all

lemma ApplyChangePack_SetStatus:
  "ApplyChangePack env p (SetStatus s d) =
     (case ApplyChangePack env p d of
        Panic d' \<Rightarrow> Panic (SetStatus s d')
      | Return None d' \<Rightarrow> Return None (if IsRemoved p then d' else SetStatus s d')
      | Return (Some e) d' \<Rightarrow> Return (Some e) (SetStatus s d'))"
proof -
  define step1 where "step1 x =
     (if length (Snapshot p) > 0
      then (case applySnapshot env (Snapshot p) (VersionVector p) (doc x) of
              (err, idoc) \<Rightarrow> Return err (x\<lparr>cloneRoot := None, clonePresences := None, doc := idoc\<rparr>))
      else applyChanges env (Changes p) x)" for x :: "('a, 'b) Document"
  define T where "T x = x\<lparr>doc := (doc x)\<lparr>localChanges :=
                      removeApplied (ClientSeq (Checkpoint p)) (localChanges (doc x))\<rparr>\<rparr>"
    for x :: "('a, 'b) Document"
  define step2 where "step2 x =
     (if length (Snapshot p) > 0 then applyChanges env (localChanges (doc x)) x else Return None x)"
    for x :: "('a, 'b) Document"
  define F where "F x = x\<lparr>doc := (doc x)\<lparr>checkpoint :=
                           Forward (checkpoint (doc x)) (Checkpoint p)\<rparr>\<rparr>"
    for x :: "('a, 'b) Document"
  define gc where "gc x =
     (if \<not> DisableGC (options x) \<and> \<not> length (Snapshot p) > 0
      then GarbageCollect env (VersionVector p) x else Return 0 x)"
    for x :: "('a, 'b) Document"
  define fin where "fin x = (if IsRemoved p then SetStatus StatusRemoved x else x)"
    for x :: "('a, 'b) Document"
  have acp: "ApplyChangePack env p x =
     (case step1 x of
        Panic d1 \<Rightarrow> Panic d1
      | Return None d1 \<Rightarrow>
          (case step2 (T d1) of
             Panic d3 \<Rightarrow> Panic d3
           | Return None d3 \<Rightarrow>
               (case gc (F d3) of
                  Panic d5 \<Rightarrow> Panic d5
                | Return n d5 \<Rightarrow> Return None (fin d5))
           | Return (Some err) d3 \<Rightarrow> Return (Some err) d3)
      | Return (Some err) d1 \<Rightarrow> Return (Some err) d1)" for x
    unfolding ApplyChangePack_def step1_def T_def step2_def F_def gc_def fin_def Let_def
    by (simp split: prod.splits)
  have c1: "step1 (SetStatus s x) = map_outcome id (SetStatus s) (step1 x)" for x
  proof (cases "length (Snapshot p) > 0")
    case True
    have "doc (SetStatus s x) = (doc x)\<lparr>status := s\<rparr>" by (simp add: SetStatus_def)
    with True show ?thesis
      unfolding step1_def
      by (simp add: applySnapshot_status split: prod.splits) (simp add: SetStatus_def)
  next
    case False
    then show ?thesis by (simp add: step1_def applyChanges_SetStatus)
  qed
  have cT: "T (SetStatus s x) = SetStatus s (T x)" for x
    by (simp add: T_def SetStatus_def)
  have c2: "step2 (SetStatus s x) = map_outcome id (SetStatus s) (step2 x)" for x
  proof -
    have "localChanges (doc (SetStatus s x)) = localChanges (doc x)" by (simp add: SetStatus_def)
    then show ?thesis by (simp add: step2_def applyChanges_SetStatus)
  qed
  have cF: "F (SetStatus s x) = SetStatus s (F x)" for x
    by (simp add: F_def SetStatus_def)
  have cgc: "gc (SetStatus s x) = map_outcome id (SetStatus s) (gc x)" for x
  proof -
    have "options (SetStatus s x) = options x" by (simp add: SetStatus_def)
    then show ?thesis by (simp add: gc_def GarbageCollect_SetStatus)
  qed
  have cfin: "fin (SetStatus s x) = (if IsRemoved p then fin x else SetStatus s (fin x))" for x
    by (simp add: fin_def SetStatus_def)
  show ?thesis
    unfolding acp c1 case_map_outcome cT c2 cF cgc cfin
    by (simp split: outcome.splits option.splits)
qed

section \<open>The claims\<close>

lemmas kv_defs =
  kv_env_def kv_doc_def kv_edit_def kv_boom_def kv_presence_def kv_noop_def
  kv_Execute_def kv_Validate_def kv_Snapshot_def

lemmas up_defs =
  Update_def Update_commit_def updaterResult_def ensureClone_def NewContext_def
  LoadOrStore_def ActorID_def IsPresenceOnlyChange_def HasChange_def ToChange_def
  NextID_def Let_def

lemmas acp_defs =
  ApplyChangePack_def applyChanges_def applySnapshot_def GarbageCollect_def
  InternalDocument_GarbageCollect_def SetStatus_def Forward_def Change_ClientSeq_def

lemma kv_removed_eval:
  "status (doc kv_removed) = StatusRemoved" "cloneRoot kv_removed = Some [(''x'', 1)]"
  "clonePresences kv_removed \<noteq> None"
  "checkpoint (doc kv_removed) = \<lparr>ServerSeq = 1, ClientSeq = 1\<rparr>"
  "localChanges (doc kv_removed) = []"
  "options kv_removed = \<lparr>DisableGC = False\<rparr>"
  "root (doc kv_removed) = [(''x'', 1)]"
  by (simp_all add: kv_removed_def kv_remove_pack_def up_defs acp_defs kv_defs)

subsection \<open>C1\<close>

text \<open>
  Claim C1, as the code has it. An \<open>Update\<close> that returns an error leaves the canonical
  state (the whole \<open>InternalDocument\<close>: root, presences, localChanges, changeID,
  checkpoint, status) equal to what it was, unless the error is the one that
  \<open>Change.Execute\<close> returned on the canonical root at the commit (line 212): then
  localChanges, changeID, checkpoint and status are what they were, and root and
  presences are as the failed \<open>Execute\<close> left them. An \<open>Update\<close> that returns nil has
  appended exactly the change of its context when the context recorded one, and nothing
  otherwise.
\<close>

theorem C1_Update_atomic:
  "(Update env upd args d = Return (Some e) d' \<longrightarrow>
      doc d' = doc d \<or>
      (\<exists>ctx1 cr1 p1 r ps.
          updaterResult env upd args d = Some (None, ctx1, cr1, p1) \<and> HasChange ctx1
          \<and> Change_Execute env (ToChange ctx1) (root (doc d)) (presences (doc d)) = (Some e, r, ps)
          \<and> doc d' = (doc d)\<lparr>root := r, presences := ps\<rparr>))
   \<and> (Update env upd args d = Return None d' \<longrightarrow>
        (\<exists>ctx1 cr1 p1.
            updaterResult env upd args d = Some (None, ctx1, cr1, p1)
            \<and> localChanges (doc d') =
                localChanges (doc d) @ (if HasChange ctx1 then [ToChange ctx1] else [])))"
proof (cases "updaterResult env upd args d")
  case None
  from Update_not_called [OF None] show ?thesis by auto
next
  case (Some res)
  obtain uerr ctx1 cr1 p1 where res: "res = (uerr, ctx1, cr1, p1)" by (cases res)
  from Update_called [OF Some [unfolded res]] obtain d2 where
    d2: "doc d2 = doc d"
    and u: "Update env upd args d =
              (case uerr of
                 Some err \<Rightarrow> Return (Some err) (d2\<lparr>cloneRoot := None, clonePresences := None\<rparr>)
               | None \<Rightarrow> Update_commit env ctx1 cr1 d2)"
    by blast
  show ?thesis
  proof (cases uerr)
    case (Some err)
    with u d2 show ?thesis by auto
  next
    case None
    with u have uc: "Update env upd args d = Update_commit env ctx1 cr1 d2" by simp
    have "Update env upd args d = Return (Some e) d' \<Longrightarrow>
            doc d' = doc d \<or>
            (\<exists>r ps. HasChange ctx1 \<and>
               Change_Execute env (ToChange ctx1) (root (doc d)) (presences (doc d)) = (Some e, r, ps)
               \<and> doc d' = (doc d)\<lparr>root := r, presences := ps\<rparr>)"
      using Update_commit_error [of env ctx1 cr1 d2 e d'] d2 uc by auto
    moreover have "Update env upd args d = Return None d' \<Longrightarrow>
            localChanges (doc d') =
              localChanges (doc d) @ (if HasChange ctx1 then [ToChange ctx1] else [])"
      using Update_commit_success [of env ctx1 cr1 d2 d'] d2 uc by simp
    ultimately show ?thesis using \<open>updaterResult env upd args d = Some res\<close> res None by blast
  qed
qed

text \<open>
  The claim as it is written fails at the commit. The clone has the key \<open>zz\<close> and the
  canonical root has not; the updater sets \<open>a\<close> and removes \<open>zz\<close>, which the clone
  accepts. At the commit the change sets \<open>a\<close> on the canonical root and then fails to
  remove \<open>zz\<close>: \<open>Update\<close> returns the error, and the canonical root has changed.
\<close>

theorem C1_counterexample:
  "returned (Update kv_env (kv_edit [SetKey ''a'' 1, RemoveKey ''zz'']) [] kv_diverged)
     = Some (Some (ErrOther ''key not found''))
   \<and> root (doc kv_diverged) = []
   \<and> root (doc (final (Update kv_env (kv_edit [SetKey ''a'' 1, RemoveKey ''zz'']) [] kv_diverged)))
       = [(''a'', 1)]"
  by (simp add: up_defs kv_defs kv_diverged_def)

text \<open>Claim C1 at a concrete document.\<close>

theorem C1_witness:
  "Update kv_env kv_boom [] kv_doc =
      Return (Some (ErrOther ''boom'')) (final (Update kv_env kv_boom [] kv_doc))
   \<and> doc (final (Update kv_env kv_boom [] kv_doc)) = doc kv_doc
   \<and> Update kv_env (kv_edit [SetKey ''x'' 1]) [] kv_doc =
      Return None (final (Update kv_env (kv_edit [SetKey ''x'' 1]) [] kv_doc))
   \<and> length (localChanges (doc (final (Update kv_env (kv_edit [SetKey ''x'' 1]) [] kv_doc)))) = 1"
proof -
  let ?d1 = "final (Update kv_env kv_boom [] kv_doc)"
  let ?d2 = "final (Update kv_env (kv_edit [SetKey ''x'' 1]) [] kv_doc)"
  have h1: "Update kv_env kv_boom [] kv_doc = Return (Some (ErrOther ''boom'')) ?d1"
    by (simp add: up_defs kv_defs)
  have h2: "Update kv_env (kv_edit [SetKey ''x'' 1]) [] kv_doc = Return None ?d2"
    by (simp add: up_defs kv_defs)
  have n: "updaterResult kv_env kv_boom [] kv_doc \<noteq> Some (None, c, r, p)" for c r p
    by (simp add: up_defs kv_defs)
  from C1_Update_atomic [of kv_env kv_boom "[]" kv_doc "ErrOther ''boom''" ?d1] h1 n
  have c1: "doc ?d1 = doc kv_doc" by blast
  from C1_Update_atomic [of kv_env "kv_edit [SetKey ''x'' 1]" "[]" kv_doc _ ?d2] h2
  obtain ctx1 cr1 p1 where
    "localChanges (doc ?d2) = localChanges (doc kv_doc) @ (if HasChange ctx1 then [ToChange ctx1] else [])"
    and "updaterResult kv_env (kv_edit [SetKey ''x'' 1]) [] kv_doc = Some (None, ctx1, cr1, p1)"
    by blast
  then have c2: "length (localChanges (doc ?d2)) = 1"
    by (auto simp: up_defs kv_defs)
  from h1 c1 h2 c2 show ?thesis by blast
qed

subsection \<open>C2\<close>

text \<open>
  Claim C2, as the code has it. When \<open>Update\<close> returns an error that the updater raised,
  or that schema validation or the size check produced, both clones are nil on return and
  the canonical state is what it was, so that the next \<open>ensureClone\<close> copies the clones
  from the canonical state. When the document is Removed, \<open>Update\<close> returns
  \<open>ErrDocumentRemoved\<close> and the document, clones included, is what it was. When the deep
  copy of the root fails, the document is what it was and its clone root is nil.
\<close>

theorem C2_Update_error_clones:
  assumes "Update env upd args d = Return (Some e) d'"
  shows "(status (doc d) = StatusRemoved \<longrightarrow> e = ErrDocumentRemoved \<and> d' = d)
       \<and> (status (doc d) \<noteq> StatusRemoved \<and> updaterResult env upd args d = None \<longrightarrow>
            d' = d \<and> cloneRoot d' = None)
       \<and> (\<forall>uerr ctx1 cr1 p1.
            updaterResult env upd args d = Some (uerr, ctx1, cr1, p1)
            \<and> (uerr \<noteq> None
                \<or> (\<not> IsPresenceOnlyChange ctx1 \<and> SchemaRules d \<noteq> []
                      \<and> \<not> Valid (ValidateYorkieRuleset env cr1 (SchemaRules d)))
                \<or> (\<not> IsPresenceOnlyChange ctx1 \<and> 0 < MaxSizeLimit d
                      \<and> MaxSizeLimit d < Root_DocSize_Total env cr1))
            \<longrightarrow> cloneRoot d' = None \<and> clonePresences d' = None \<and> doc d' = doc d
                \<and> (\<forall>r. Root_DeepCopy env (root (doc d)) = Inr r \<longrightarrow>
                      ensureClone env d' =
                        (None, d'\<lparr>cloneRoot := Some r, clonePresences := Some (presences (doc d))\<rparr>)))"
proof (cases "updaterResult env upd args d")
  case None
  from Update_not_called [OF None] assms show ?thesis using None by auto
next
  case (Some res)
  obtain uerr ctx1 cr1 p1 where res: "res = (uerr, ctx1, cr1, p1)" by (cases res)
  from Update_called [OF Some [unfolded res]] obtain d2 where
    d2: "doc d2 = doc d" "MaxSizeLimit d2 = MaxSizeLimit d" "SchemaRules d2 = SchemaRules d"
    and ns: "status (doc d) \<noteq> StatusRemoved"
    and u: "Update env upd args d =
              (case uerr of
                 Some err \<Rightarrow> Return (Some err) (d2\<lparr>cloneRoot := None, clonePresences := None\<rparr>)
               | None \<Rightarrow> Update_commit env ctx1 cr1 d2)"
    by blast
  have inv: "cloneRoot d' = None \<and> clonePresences d' = None \<and> doc d' = doc d"
    if "uerr \<noteq> None
        \<or> (\<not> IsPresenceOnlyChange ctx1 \<and> SchemaRules d \<noteq> []
              \<and> \<not> Valid (ValidateYorkieRuleset env cr1 (SchemaRules d)))
        \<or> (\<not> IsPresenceOnlyChange ctx1 \<and> 0 < MaxSizeLimit d
              \<and> MaxSizeLimit d < Root_DocSize_Total env cr1)"
  proof (cases uerr)
    case (Some err)
    with u assms d2 show ?thesis by auto
  next
    case None
    with u assms have "Update_commit env ctx1 cr1 d2 = Return (Some e) d'" by simp
    from Update_commit_error [OF this] that None d2 show ?thesis by auto
  qed
  have "ensureClone env d' =
          (None, d'\<lparr>cloneRoot := Some r, clonePresences := Some (presences (doc d))\<rparr>)"
    if "cloneRoot d' = None \<and> clonePresences d' = None \<and> doc d' = doc d"
      and "Root_DeepCopy env (root (doc d)) = Inr r" for r
    using ensureClone_rebuild [of d' env r] that by simp
  with inv show ?thesis using Some res ns by auto
qed

text \<open>
  The claim as it is written fails on a Removed document: after a successful \<open>Update\<close>
  and a pack that removes the document, the clones are still there, and the next
  \<open>Update\<close> returns \<open>ErrDocumentRemoved\<close> without touching them.
\<close>

theorem C2_counterexample:
  "Update kv_env kv_noop [] kv_removed = Return (Some ErrDocumentRemoved) kv_removed
   \<and> cloneRoot kv_removed = Some [(''x'', 1)]
   \<and> clonePresences kv_removed \<noteq> None"
  by (simp add: Update_def kv_removed_eval)

text \<open>Claim C2 at a concrete document.\<close>

theorem C2_witness:
  "Update kv_env kv_boom [] kv_doc =
      Return (Some (ErrOther ''boom'')) (final (Update kv_env kv_boom [] kv_doc))
   \<and> cloneRoot (final (Update kv_env kv_boom [] kv_doc)) = None
   \<and> clonePresences (final (Update kv_env kv_boom [] kv_doc)) = None
   \<and> cloneRoot (snd (ensureClone kv_env (final (Update kv_env kv_boom [] kv_doc)))) = Some []
   \<and> clonePresences (snd (ensureClone kv_env (final (Update kv_env kv_boom [] kv_doc))))
       = Some Map.empty"
proof -
  let ?d' = "final (Update kv_env kv_boom [] kv_doc)"
  let ?ctx = "\<lparr>ctxID = \<lparr>idClientSeq = 0, idLamport = 0, idActorID = ''A''\<rparr>, ctxMessage = [],
               ctxOperations = [SetKey ''y'' 2], ctxPresenceChange = None\<rparr>"
  have h: "Update kv_env kv_boom [] kv_doc = Return (Some (ErrOther ''boom'')) ?d'"
    by (simp add: up_defs kv_defs)
  have u: "updaterResult kv_env kv_boom [] kv_doc
             = Some (Some (ErrOther ''boom''), ?ctx, [(''y'', 2)], Map.empty)"
    by (simp add: up_defs kv_defs)
  have r: "Root_DeepCopy kv_env (root (doc kv_doc)) = Inr []" "presences (doc kv_doc) = Map.empty"
    by (simp_all add: kv_defs)
  from C2_Update_error_clones [OF h] u r have
    "cloneRoot ?d' = None \<and> clonePresences ?d' = None
     \<and> ensureClone kv_env ?d' = (None, ?d'\<lparr>cloneRoot := Some [], clonePresences := Some Map.empty\<rparr>)"
    by simp
  with h show ?thesis by simp
qed

subsection \<open>C3\<close>

text \<open>
  Claim C3. On a document whose status is Removed, \<open>Update\<close> returns
  \<open>ErrDocumentRemoved\<close>, does not call the updater and leaves the document as it was.
  \<open>ApplyChangePack\<close> does not look at the status: a pack that is applied with success to
  the document under any other status is applied with success to the Removed document,
  forwards its checkpoint, and leaves it Removed.
\<close>

theorem C3_removed:
  assumes "status (doc d) = StatusRemoved"
  shows "Update env upd args d = Return (Some ErrDocumentRemoved) d
       \<and> updaterResult env upd args d = None
       \<and> (\<forall>s d1. ApplyChangePack env p (SetStatus s d) = Return None d1 \<longrightarrow>
            (\<exists>d'. ApplyChangePack env p d = Return None d'
                 \<and> checkpoint (doc d') = Forward (checkpoint (doc d)) (Checkpoint p)
                 \<and> status (doc d') = StatusRemoved))"
proof -
  have "\<exists>d'. ApplyChangePack env p d = Return None d'
           \<and> checkpoint (doc d') = Forward (checkpoint (doc d)) (Checkpoint p)
           \<and> status (doc d') = StatusRemoved"
    if "ApplyChangePack env p (SetStatus s d) = Return None d1" for s d1
  proof -
    from that ApplyChangePack_SetStatus [of env p s d]
    obtain d' where ok: "ApplyChangePack env p d = Return None d'"
      by (cases "ApplyChangePack env p d") (auto split: option.splits)
    from ApplyChangePack_success(2,3) [OF ok] assms ok show ?thesis by simp
  qed
  with assms show ?thesis by (simp add: Update_def updaterResult_def)
qed

text \<open>Claim C3 at a concrete document.\<close>

theorem C3_witness:
  "status (doc kv_removed) = StatusRemoved
   \<and> Update kv_env (kv_edit [SetKey ''y'' 2]) [] kv_removed = Return (Some ErrDocumentRemoved) kv_removed
   \<and> returned (ApplyChangePack kv_env kv_ack_pack (SetStatus StatusAttached kv_removed)) = Some None
   \<and> returned (ApplyChangePack kv_env kv_ack_pack kv_removed) = Some None
   \<and> checkpoint (doc (final (ApplyChangePack kv_env kv_ack_pack kv_removed)))
       = \<lparr>ServerSeq = 2, ClientSeq = 2\<rparr>
   \<and> status (doc (final (ApplyChangePack kv_env kv_ack_pack kv_removed))) = StatusRemoved"
proof -
  let ?a = "SetStatus StatusAttached kv_removed"
  have h: "status (doc kv_removed) = StatusRemoved" by (rule kv_removed_eval)
  have a: "ApplyChangePack kv_env kv_ack_pack ?a
             = Return None (final (ApplyChangePack kv_env kv_ack_pack ?a))"
    by (simp add: kv_removed_def kv_remove_pack_def kv_ack_pack_def up_defs acp_defs kv_defs)
  from C3_removed [OF h, of kv_env "kv_edit [SetKey ''y'' 2]" "[]" kv_ack_pack] a
  obtain d' where u: "Update kv_env (kv_edit [SetKey ''y'' 2]) [] kv_removed
                        = Return (Some ErrDocumentRemoved) kv_removed"
    and ok: "ApplyChangePack kv_env kv_ack_pack kv_removed = Return None d'"
    and cp: "checkpoint (doc d') = Forward (checkpoint (doc kv_removed)) (Checkpoint kv_ack_pack)"
    and st: "status (doc d') = StatusRemoved"
    by blast
  have "Forward (checkpoint (doc kv_removed)) (Checkpoint kv_ack_pack) = \<lparr>ServerSeq = 2, ClientSeq = 2\<rparr>"
    by (simp add: kv_removed_eval Forward_def kv_ack_pack_def)
  with h u ok cp st arg_cong [OF a, of returned] show ?thesis by simp
qed

subsection \<open>C4\<close>

text \<open>
  Claim C4. When the client sequences of the local changes are strictly increasing and
  \<open>ApplyChangePack\<close> returns nil, the local changes that remain are a suffix of the
  original ones, the dropped prefix has client sequences at most the pack's, and every
  remaining change has a client sequence above the pack's.
\<close>

theorem C4_truncate:
  assumes "sorted_wrt (<) (map Change_ClientSeq (localChanges (doc d)))"
    and "ApplyChangePack env p d = Return None d'"
  shows "\<exists>acked. localChanges (doc d) = acked @ localChanges (doc d')
           \<and> (\<forall>c \<in> set acked. Change_ClientSeq c \<le> ClientSeq (Checkpoint p))
           \<and> (\<forall>c \<in> set (localChanges (doc d')). ClientSeq (Checkpoint p) < Change_ClientSeq c)"
proof -
  from ApplyChangePack_success(1) [OF assms(2)] have
    lc: "localChanges (doc d') = removeApplied (ClientSeq (Checkpoint p)) (localChanges (doc d))" .
  from removeApplied_suffix [of "localChanges (doc d)" "ClientSeq (Checkpoint p)"] obtain acked where
    "localChanges (doc d) = acked @ removeApplied (ClientSeq (Checkpoint p)) (localChanges (doc d))"
    "\<forall>c \<in> set acked. Change_ClientSeq c \<le> ClientSeq (Checkpoint p)"
    by blast
  moreover from removeApplied_above [OF assms(1), of "ClientSeq (Checkpoint p)"] have
    "\<forall>c \<in> set (removeApplied (ClientSeq (Checkpoint p)) (localChanges (doc d))).
        ClientSeq (Checkpoint p) < Change_ClientSeq c" .
  ultimately show ?thesis using lc by auto
qed

text \<open>Claim C4 at a concrete document.\<close>

theorem C4_witness:
  "sorted_wrt (<) (map Change_ClientSeq (localChanges (doc kv_three)))
   \<and> returned (ApplyChangePack kv_env kv_ack_pack kv_three) = Some None
   \<and> localChanges (doc (final (ApplyChangePack kv_env kv_ack_pack kv_three)))
       = [kv_change 3 [SetKey ''c'' 3]]
   \<and> (\<exists>acked. localChanges (doc kv_three)
          = acked @ localChanges (doc (final (ApplyChangePack kv_env kv_ack_pack kv_three)))
        \<and> list_all (\<lambda>c. Change_ClientSeq c \<le> ClientSeq (Checkpoint kv_ack_pack)) acked
        \<and> list_all (\<lambda>c. ClientSeq (Checkpoint kv_ack_pack) < Change_ClientSeq c)
            (localChanges (doc (final (ApplyChangePack kv_env kv_ack_pack kv_three)))))"
proof -
  let ?d' = "final (ApplyChangePack kv_env kv_ack_pack kv_three)"
  have h1: "sorted_wrt (<) (map Change_ClientSeq (localChanges (doc kv_three)))"
    by (simp add: kv_three_def kv_change_def Change_ClientSeq_def kv_doc_def)
  have h2: "ApplyChangePack kv_env kv_ack_pack kv_three = Return None ?d'"
    by (simp add: kv_three_def kv_ack_pack_def kv_change_def acp_defs kv_defs ensureClone_def)
  have h3: "localChanges (doc ?d') = [kv_change 3 [SetKey ''c'' 3]]"
    by (simp add: kv_three_def kv_ack_pack_def kv_change_def acp_defs kv_defs ensureClone_def)
  from C4_truncate [OF h1 h2] have
    "\<exists>acked. localChanges (doc kv_three) = acked @ localChanges (doc ?d')
        \<and> list_all (\<lambda>c. Change_ClientSeq c \<le> ClientSeq (Checkpoint kv_ack_pack)) acked
        \<and> list_all (\<lambda>c. ClientSeq (Checkpoint kv_ack_pack) < Change_ClientSeq c)
            (localChanges (doc ?d'))"
    by (simp add: list_all_iff)
  moreover from arg_cong [OF h2, of returned] have
    "returned (ApplyChangePack kv_env kv_ack_pack kv_three) = Some None"
    by simp
  ultimately show ?thesis using h1 h3 by simp
qed

subsection \<open>C5\<close>

text \<open>
  Claim C5. Whatever \<open>ApplyChangePack\<close> does (return nil, return an error, panic in the
  garbage collection), the checkpoint it leaves is at least the one it found, in both
  fields; when it returns nil the checkpoint is \<open>Forward\<close> of the old one and the pack's.
\<close>

theorem C5_checkpoint_monotone:
  "ServerSeq (checkpoint (doc d)) \<le> ServerSeq (checkpoint (doc (final (ApplyChangePack env p d))))
   \<and> ClientSeq (checkpoint (doc d)) \<le> ClientSeq (checkpoint (doc (final (ApplyChangePack env p d))))
   \<and> (returned (ApplyChangePack env p d) = Some None \<longrightarrow>
        checkpoint (doc (final (ApplyChangePack env p d)))
          = Forward (checkpoint (doc d)) (Checkpoint p))"
proof -
  have "checkpoint (doc (final (ApplyChangePack env p d))) = checkpoint (doc d)
      \<or> checkpoint (doc (final (ApplyChangePack env p d)))
          = Forward (checkpoint (doc d)) (Checkpoint p)"
    unfolding ApplyChangePack_def
    by (auto simp: Let_def SetStatus_def
             dest!: applyChanges_frame applySnapshot_frame GarbageCollect_frame
             split: prod.splits option.splits outcome.splits if_splits)
  moreover have "ServerSeq c \<le> ServerSeq (Forward c other) \<and> ClientSeq c \<le> ClientSeq (Forward c other)"
    for c other
    by (simp add: Forward_def)
  moreover have "checkpoint (doc (final (ApplyChangePack env p d)))
          = Forward (checkpoint (doc d)) (Checkpoint p)"
    if "returned (ApplyChangePack env p d) = Some None"
  proof -
    from that obtain d' where "ApplyChangePack env p d = Return None d'"
      by (cases "ApplyChangePack env p d") auto
    with ApplyChangePack_success(2) [OF this] show ?thesis by simp
  qed
  ultimately show ?thesis by (metis order_refl)
qed

text \<open>Claim C5 at a concrete document.\<close>

theorem C5_witness:
  "checkpoint (doc kv_three) = \<lparr>ServerSeq = 0, ClientSeq = 0\<rparr>
   \<and> returned (ApplyChangePack kv_env kv_ack_pack kv_three) = Some None
   \<and> checkpoint (doc (final (ApplyChangePack kv_env kv_ack_pack kv_three)))
       = \<lparr>ServerSeq = 2, ClientSeq = 2\<rparr>
   \<and> ServerSeq (checkpoint (doc kv_three))
       \<le> ServerSeq (checkpoint (doc (final (ApplyChangePack kv_env kv_ack_pack kv_three))))
   \<and> ClientSeq (checkpoint (doc kv_three))
       \<le> ClientSeq (checkpoint (doc (final (ApplyChangePack kv_env kv_ack_pack kv_three))))"
proof -
  have h0: "checkpoint (doc kv_three) = \<lparr>ServerSeq = 0, ClientSeq = 0\<rparr>"
    by (simp add: kv_three_def kv_doc_def)
  have h1: "returned (ApplyChangePack kv_env kv_ack_pack kv_three) = Some None"
    by (simp add: kv_three_def kv_ack_pack_def kv_change_def acp_defs kv_defs ensureClone_def)
  have f: "Forward (checkpoint (doc kv_three)) (Checkpoint kv_ack_pack) = \<lparr>ServerSeq = 2, ClientSeq = 2\<rparr>"
    by (simp add: h0 Forward_def kv_ack_pack_def)
  from C5_checkpoint_monotone [of kv_three kv_env kv_ack_pack] h1 f h0
  show ?thesis by simp
qed

subsection \<open>C6\<close>

text \<open>
  Claim C6, as the code has it. When the updater has returned nil, its change is not
  presence-only, schema validation did not fail (no rule, or a valid clone),
  \<open>MaxSizeLimit\<close> is positive and the size of the clone root is above it, \<open>Update\<close>
  sets both clones to nil and returns \<open>ErrDocumentSizeExceedsLimit\<close>, the canonical
  state being what it was. When the change is presence-only or \<open>MaxSizeLimit\<close> is 0, the
  size plays no part: \<open>Update\<close> does the same whatever \<open>DocSize\<close> computes.
\<close>

theorem C6_size_check:
  assumes "updaterResult env upd args d = Some (None, ctx1, cr1, p1)"
  shows "(\<not> IsPresenceOnlyChange ctx1
            \<and> (SchemaRules d = [] \<or> Valid (ValidateYorkieRuleset env cr1 (SchemaRules d)))
            \<and> 0 < MaxSizeLimit d \<and> MaxSizeLimit d < Root_DocSize_Total env cr1
          \<longrightarrow> (\<exists>d'. Update env upd args d = Return (Some ErrDocumentSizeExceedsLimit) d'
                    \<and> cloneRoot d' = None \<and> clonePresences d' = None \<and> doc d' = doc d))
       \<and> (IsPresenceOnlyChange ctx1 \<or> MaxSizeLimit d = 0
          \<longrightarrow> (\<forall>f. Update (env\<lparr>Root_DocSize_Total := f\<rparr>) upd args d = Update env upd args d))"
proof -
  from Update_called [OF assms] obtain d2 where
    d2: "doc d2 = doc d" "MaxSizeLimit d2 = MaxSizeLimit d" "SchemaRules d2 = SchemaRules d"
    and u: "Update env upd args d = Update_commit env ctx1 cr1 d2"
    by auto
  have a: "\<exists>d'. Update env upd args d = Return (Some ErrDocumentSizeExceedsLimit) d'
                \<and> cloneRoot d' = None \<and> clonePresences d' = None \<and> doc d' = doc d"
    if "\<not> IsPresenceOnlyChange ctx1"
      "SchemaRules d = [] \<or> Valid (ValidateYorkieRuleset env cr1 (SchemaRules d))"
      "0 < MaxSizeLimit d" "MaxSizeLimit d < Root_DocSize_Total env cr1"
    using Update_commit_size [of ctx1 d2 env cr1] that d2 u by auto
  have e: "ensureClone (env\<lparr>Root_DocSize_Total := f\<rparr>) x = ensureClone env x" for f x
    by (simp add: ensureClone_def)
  have m: "messageFromMsgAndArgs (env\<lparr>Root_DocSize_Total := f\<rparr>) xs = messageFromMsgAndArgs env xs" for f xs
    by (induction env xs rule: messageFromMsgAndArgs.induct) (auto split: iface.splits)
  have c: "Update_commit (env\<lparr>Root_DocSize_Total := f\<rparr>) ctx cr x = Update_commit env ctx cr x"
    if "IsPresenceOnlyChange ctx \<or> MaxSizeLimit x = 0" for f ctx cr x
    using that by (auto simp: Update_commit_def Let_def NextID_def split: prod.splits option.splits)
  have b: "Update (env\<lparr>Root_DocSize_Total := f\<rparr>) upd args d = Update env upd args d"
    if "IsPresenceOnlyChange ctx1 \<or> MaxSizeLimit d = 0" for f
    using assms that unfolding Update_def updaterResult_def
    by (auto simp: e m Let_def c dest: ensureClone_ok split: if_splits option.splits prod.splits)
  from a b show ?thesis by blast
qed

text \<open>
  The claim as it is written fails when schema validation fails first: the change has
  operations, the limit is 1 and the clone has two entries, but the rule asks for a key
  that is missing, and \<open>Update\<close> returns \<open>ErrSchemaValidationFailed\<close>.
\<close>

theorem C6_counterexample:
  "updaterResult kv_env (kv_edit [SetKey ''x'' 1, SetKey ''y'' 2]) [] kv_limited =
     Some (None,
           \<lparr>ctxID = \<lparr>idClientSeq = 0, idLamport = 0, idActorID = ''A''\<rparr>, ctxMessage = [],
             ctxOperations = [SetKey ''x'' 1, SetKey ''y'' 2], ctxPresenceChange = None\<rparr>,
           [(''x'', 1), (''y'', 2)], Map.empty)
   \<and> \<not> IsPresenceOnlyChange
         \<lparr>ctxID = \<lparr>idClientSeq = 0, idLamport = 0, idActorID = ''A''\<rparr>, ctxMessage = [],
          ctxOperations = [SetKey ''x'' 1, SetKey ''y'' 2], ctxPresenceChange = None\<rparr>
   \<and> 0 < MaxSizeLimit kv_limited
   \<and> MaxSizeLimit kv_limited < Root_DocSize_Total kv_env [(''x'', 1), (''y'', 2)]
   \<and> returned (Update kv_env (kv_edit [SetKey ''x'' 1, SetKey ''y'' 2]) [] kv_limited)
       = Some (Some (ErrSchemaValidationFailed ''missing title''))"
  by (simp add: up_defs kv_defs kv_limited_def)

text \<open>Claim C6 at a concrete document.\<close>

theorem C6_witness:
  "returned (Update kv_env (kv_edit [SetKey ''x'' 1, SetKey ''y'' 2]) [] kv_small)
      = Some (Some ErrDocumentSizeExceedsLimit)
   \<and> cloneRoot (final (Update kv_env (kv_edit [SetKey ''x'' 1, SetKey ''y'' 2]) [] kv_small)) = None
   \<and> clonePresences (final (Update kv_env (kv_edit [SetKey ''x'' 1, SetKey ''y'' 2]) [] kv_small)) = None
   \<and> doc (final (Update kv_env (kv_edit [SetKey ''x'' 1, SetKey ''y'' 2]) [] kv_small)) = doc kv_small
   \<and> MaxSizeLimit kv_doc = 0
   \<and> Update (kv_env\<lparr>Root_DocSize_Total := (\<lambda>r. 1000)\<rparr>) (kv_edit [SetKey ''x'' 1, SetKey ''y'' 2]) [] kv_doc
       = Update kv_env (kv_edit [SetKey ''x'' 1, SetKey ''y'' 2]) [] kv_doc"
proof -
  let ?upd = "kv_edit [SetKey ''x'' 1, SetKey ''y'' 2]"
  let ?ctx = "\<lparr>ctxID = \<lparr>idClientSeq = 0, idLamport = 0, idActorID = ''A''\<rparr>, ctxMessage = [],
               ctxOperations = [SetKey ''x'' 1, SetKey ''y'' 2], ctxPresenceChange = None\<rparr>"
  have u1: "updaterResult kv_env ?upd [] kv_small = Some (None, ?ctx, [(''x'', 1), (''y'', 2)], Map.empty)"
    by (simp add: up_defs kv_defs kv_small_def)
  have u2: "updaterResult kv_env ?upd [] kv_doc = Some (None, ?ctx, [(''x'', 1), (''y'', 2)], Map.empty)"
    by (simp add: up_defs kv_defs)
  have h1: "\<not> IsPresenceOnlyChange ?ctx" "SchemaRules kv_small = []" "0 < MaxSizeLimit kv_small"
    "MaxSizeLimit kv_small < Root_DocSize_Total kv_env [(''x'', 1), (''y'', 2)]"
    by (simp_all add: IsPresenceOnlyChange_def kv_small_def kv_defs)
  have h2: "MaxSizeLimit kv_doc = 0" by (simp add: kv_doc_def)
  from C6_size_check [OF u1] h1 obtain d' where
    "Update kv_env ?upd [] kv_small = Return (Some ErrDocumentSizeExceedsLimit) d'"
    "cloneRoot d' = None" "clonePresences d' = None" "doc d' = doc kv_small"
    by blast
  moreover from C6_size_check [OF u2] h2 have
    "Update (kv_env\<lparr>Root_DocSize_Total := (\<lambda>r. 1000)\<rparr>) ?upd [] kv_doc = Update kv_env ?upd [] kv_doc"
    by blast
  ultimately show ?thesis using h2 by simp
qed

subsection \<open>C7\<close>

text \<open>
  Claim C7, as the code has it. \<open>Update\<close> calls the updater at most once, and calls
  \<open>ValidateYorkieRuleset\<close> (once, after the updater, on the clone root) exactly when the
  updater returned nil, the context it left is not presence-only and there is at least
  one schema rule: when the updater is not called or returns an error, validation does
  not run. When the validation of the clone root is not valid, \<open>Update\<close> returns
  \<open>ErrSchemaValidationFailed\<close> with the concatenation of the messages, in order, each
  but the first after a comma and a space, and both clones are nil.
\<close>

theorem C7_schema_validation:
  "calls (final (Update env upd args d)) =
     calls d @
       (case updaterResult env upd args d of
          None \<Rightarrow> []
        | Some (uerr, ctx1, cr1, p1) \<Rightarrow>
            (case uerr of
               Some err \<Rightarrow> [CallUpdater]
             | None \<Rightarrow>
                 CallUpdater #
                   (if \<not> IsPresenceOnlyChange ctx1 \<and> length (SchemaRules d) > 0
                    then [CallValidateYorkieRuleset] else [])))
   \<and> (\<forall>ctx1 cr1 p1.
         updaterResult env upd args d = Some (None, ctx1, cr1, p1)
         \<and> \<not> IsPresenceOnlyChange ctx1 \<and> length (SchemaRules d) > 0
         \<and> \<not> Valid (ValidateYorkieRuleset env cr1 (SchemaRules d))
         \<longrightarrow> returned (Update env upd args d) =
               Some (Some (ErrSchemaValidationFailed
                 (case map Message (Errors (ValidateYorkieRuleset env cr1 (SchemaRules d))) of
                    [] \<Rightarrow> []
                  | m # ms \<Rightarrow> m @ concat (map (\<lambda>x. '', '' @ x) ms))))
             \<and> cloneRoot (final (Update env upd args d)) = None
             \<and> clonePresences (final (Update env upd args d)) = None)"
proof (cases "updaterResult env upd args d")
  case None
  from Update_not_called [OF None] show ?thesis using None
    by (auto dest: ensureClone_ok)
next
  case (Some res)
  obtain uerr ctx1 cr1 p1 where res: "res = (uerr, ctx1, cr1, p1)" by (cases res)
  from Update_called [OF Some [unfolded res]] obtain d2 where
    d2: "calls d2 = calls d @ [CallUpdater]" "SchemaRules d2 = SchemaRules d"
    and u: "Update env upd args d =
              (case uerr of
                 Some err \<Rightarrow> Return (Some err) (d2\<lparr>cloneRoot := None, clonePresences := None\<rparr>)
               | None \<Rightarrow> Update_commit env ctx1 cr1 d2)"
    by blast
  have j: "Join xs '', '' = (case xs of [] \<Rightarrow> [] | m # ms \<Rightarrow> m @ concat (map (\<lambda>x. '', '' @ x) ms))"
    for xs :: "string list"
    by (cases xs) (simp_all only: Join.simps(1) Join_concat list.case)
  show ?thesis
  proof (cases uerr)
    case (Some err)
    with u d2 \<open>updaterResult env upd args d = Some res\<close> res show ?thesis by simp
  next
    case None
    with u have uc: "Update env upd args d = Update_commit env ctx1 cr1 d2" by simp
    have "calls (final (Update env upd args d)) =
            calls d @ CallUpdater #
              (if \<not> IsPresenceOnlyChange ctx1 \<and> length (SchemaRules d) > 0
               then [CallValidateYorkieRuleset] else [])"
      using Update_commit_calls [of env ctx1 cr1 d2] d2 uc by simp
    moreover have "returned (Update env upd args d) =
               Some (Some (ErrSchemaValidationFailed
                 (case map Message (Errors (ValidateYorkieRuleset env cr1 (SchemaRules d))) of
                    [] \<Rightarrow> []
                  | m # ms \<Rightarrow> m @ concat (map (\<lambda>x. '', '' @ x) ms))))
             \<and> cloneRoot (final (Update env upd args d)) = None
             \<and> clonePresences (final (Update env upd args d)) = None"
      if "\<not> IsPresenceOnlyChange ctx1" "length (SchemaRules d) > 0"
         "\<not> Valid (ValidateYorkieRuleset env cr1 (SchemaRules d))"
      using Update_commit_schema [of ctx1 d2 env cr1] that d2 uc
      by (simp add: j [symmetric])
    ultimately show ?thesis using \<open>updaterResult env upd args d = Some res\<close> res None by simp
  qed
qed

text \<open>
  The claim as it is written fails when the updater fails: it has recorded an operation,
  so the context is not presence-only, and a schema rule is configured, but \<open>Update\<close>
  returns the updater's error at lines 180 to 186 and validation does not run.
\<close>

theorem C7_counterexample:
  "updaterResult kv_env kv_boom [] kv_limited =
     Some (Some (ErrOther ''boom''),
           \<lparr>ctxID = \<lparr>idClientSeq = 0, idLamport = 0, idActorID = ''A''\<rparr>, ctxMessage = [],
             ctxOperations = [SetKey ''y'' 2], ctxPresenceChange = None\<rparr>,
           [(''y'', 2)], Map.empty)
   \<and> \<not> IsPresenceOnlyChange
         \<lparr>ctxID = \<lparr>idClientSeq = 0, idLamport = 0, idActorID = ''A''\<rparr>, ctxMessage = [],
          ctxOperations = [SetKey ''y'' 2], ctxPresenceChange = None\<rparr>
   \<and> length (SchemaRules kv_limited) > 0
   \<and> returned (Update kv_env kv_boom [] kv_limited) = Some (Some (ErrOther ''boom''))
   \<and> calls (final (Update kv_env kv_boom [] kv_limited)) = [CallUpdater]"
  by (simp add: up_defs kv_defs kv_limited_def)

text \<open>
  Claim C7 at concrete documents: one rule violated, three rules violated (three messages
  joined), and a presence-only change with a rule configured (no validation).
\<close>

theorem C7_witness:
  "calls (final (Update kv_env (kv_edit [SetKey ''x'' 1]) [] kv_limited))
      = [CallUpdater, CallValidateYorkieRuleset]
   \<and> returned (Update kv_env (kv_edit [SetKey ''x'' 1]) [] kv_limited)
      = Some (Some (ErrSchemaValidationFailed ''missing title''))
   \<and> cloneRoot (final (Update kv_env (kv_edit [SetKey ''x'' 1]) [] kv_limited)) = None
   \<and> clonePresences (final (Update kv_env (kv_edit [SetKey ''x'' 1]) [] kv_limited)) = None
   \<and> calls (final (Update kv_env (kv_edit [SetKey ''x'' 1]) [] kv_three_rules))
      = [CallUpdater, CallValidateYorkieRuleset]
   \<and> returned (Update kv_env (kv_edit [SetKey ''x'' 1]) [] kv_three_rules)
      = Some (Some (ErrSchemaValidationFailed ''missing title, missing body, missing author''))
   \<and> calls (final (Update kv_env kv_presence [] kv_limited)) = [CallUpdater]"
proof -
  let ?ctx = "\<lparr>ctxID = changeID (doc kv_doc), ctxMessage = [], ctxOperations = [SetKey ''x'' 1],
               ctxPresenceChange = None\<rparr>"
  have h1: "updaterResult kv_env (kv_edit [SetKey ''x'' 1]) [] kv_limited =
              Some (None, ?ctx, [(''x'', 1)], Map.empty)"
    by (simp add: up_defs kv_defs kv_limited_def)
  have h2: "\<not> IsPresenceOnlyChange ?ctx" "length (SchemaRules kv_limited) > 0"
    "\<not> Valid (ValidateYorkieRuleset kv_env [(''x'', 1)] (SchemaRules kv_limited))"
    "map Message (Errors (ValidateYorkieRuleset kv_env [(''x'', 1)] (SchemaRules kv_limited)))
       = [''missing title'']"
    by (simp_all add: IsPresenceOnlyChange_def kv_limited_def kv_defs)
  have h3: "updaterResult kv_env kv_presence [] kv_limited =
              Some (None, \<lparr>ctxID = changeID (doc kv_doc), ctxMessage = [], ctxOperations = [],
                           ctxPresenceChange = Some (Put (Map.empty(''cursor'' \<mapsto> ''1'')))\<rparr>,
                    [], Map.empty(''cursor'' \<mapsto> ''1''))"
    by (simp add: up_defs kv_defs kv_limited_def)
  have h4: "updaterResult kv_env (kv_edit [SetKey ''x'' 1]) [] kv_three_rules =
              Some (None, ?ctx, [(''x'', 1)], Map.empty)"
    by (simp add: up_defs kv_defs kv_three_rules_def)
  have h5: "length (SchemaRules kv_three_rules) > 0"
    "\<not> Valid (ValidateYorkieRuleset kv_env [(''x'', 1)] (SchemaRules kv_three_rules))"
    "map Message (Errors (ValidateYorkieRuleset kv_env [(''x'', 1)] (SchemaRules kv_three_rules)))
       = [''missing title'', ''missing body'', ''missing author'']"
    by (simp_all add: kv_three_rules_def kv_defs)
  have c0: "calls kv_limited = []" "calls kv_three_rules = []"
    by (simp_all add: kv_limited_def kv_three_rules_def kv_defs)
  from C7_schema_validation [of kv_env "kv_edit [SetKey ''x'' 1]" "[]" kv_limited] h1 h2 c0
  have a: "calls (final (Update kv_env (kv_edit [SetKey ''x'' 1]) [] kv_limited))
      = [CallUpdater, CallValidateYorkieRuleset]
   \<and> returned (Update kv_env (kv_edit [SetKey ''x'' 1]) [] kv_limited)
      = Some (Some (ErrSchemaValidationFailed ''missing title''))
   \<and> cloneRoot (final (Update kv_env (kv_edit [SetKey ''x'' 1]) [] kv_limited)) = None
   \<and> clonePresences (final (Update kv_env (kv_edit [SetKey ''x'' 1]) [] kv_limited)) = None"
    by simp
  from C7_schema_validation [of kv_env "kv_edit [SetKey ''x'' 1]" "[]" kv_three_rules] h4 h2(1) h5 c0
  have t: "calls (final (Update kv_env (kv_edit [SetKey ''x'' 1]) [] kv_three_rules))
      = [CallUpdater, CallValidateYorkieRuleset]
   \<and> returned (Update kv_env (kv_edit [SetKey ''x'' 1]) [] kv_three_rules)
      = Some (Some (ErrSchemaValidationFailed ''missing title, missing body, missing author''))"
    by simp
  from C7_schema_validation [of kv_env kv_presence "[]" kv_limited] h3 c0
  have b: "calls (final (Update kv_env kv_presence [] kv_limited)) = [CallUpdater]"
    by (simp add: IsPresenceOnlyChange_def)
  from a t b show ?thesis by simp
qed

subsection \<open>C8\<close>




subsection \<open>C9\<close>

text \<open>
  Claim C9. When the updater returns nil and has recorded neither an operation nor a
  presence change, \<open>Update\<close> returns nil and the canonical state (root, presences,
  localChanges, changeID and the rest of the \<open>InternalDocument\<close>) is what it was.
\<close>

theorem C9_no_change:
  assumes "updaterResult env upd args d = Some (None, ctx1, cr1, p1)"
    and "\<not> HasChange ctx1"
  shows "\<exists>d'. Update env upd args d = Return None d' \<and> doc d' = doc d"
proof -
  from Update_called [OF assms(1)] obtain d2 where
    "doc d2 = doc d" "Update env upd args d = Update_commit env ctx1 cr1 d2"
    by auto
  with Update_commit_no_change [OF assms(2), of env cr1 d2] show ?thesis by simp
qed

text \<open>Claim C9 at a concrete document.\<close>

theorem C9_witness:
  "returned (Update kv_env kv_noop [] kv_doc) = Some None
   \<and> doc (final (Update kv_env kv_noop [] kv_doc)) = doc kv_doc"
proof -
  have h1: "updaterResult kv_env kv_noop [] kv_doc =
              Some (None, NewContext (changeID (doc kv_doc)) [] [], [], Map.empty)"
    by (simp add: up_defs kv_defs)
  have h2: "\<not> HasChange (NewContext (changeID (doc kv_doc)) [] ([] :: KvRoot) :: KvOp Context)"
    by (simp add: HasChange_def NewContext_def)
  from C9_no_change [OF h1 h2] show ?thesis by auto
qed

subsection \<open>C10\<close>

text \<open>
  Claim C10. When the document is not Removed and the clones can be made, \<open>Update\<close> with
  two or more message arguments of which the first is not a string panics in
  \<open>messageFromMsgAndArgs\<close>: it returns no error.
\<close>

theorem C10_message_panic:
  assumes "status (doc d) \<noteq> StatusRemoved"
    and "ensureClone env d = (None, d1)"
    and "\<forall>s. m \<noteq> IString s"
  shows "messageFromMsgAndArgs env (m # a # as) = None
       \<and> Update env upd (m # a # as) d = Panic d1"
proof -
  from assms(3) have "messageFromMsgAndArgs env (m # a # as) = None"
    by (cases m) simp_all
  with assms(1,2) show ?thesis by (simp add: Update_def)
qed

text \<open>Claim C10 at a concrete document.\<close>

theorem C10_witness:
  "status (doc kv_doc) \<noteq> StatusRemoved
   \<and> returned (Update kv_env kv_noop [IInt 42, IString ''x''] kv_doc) = None
   \<and> messageFromMsgAndArgs kv_env [IInt 42, IString ''x''] = None"
proof -
  have h1: "status (doc kv_doc) \<noteq> StatusRemoved" by (simp add: kv_doc_def)
  have h2: "ensureClone kv_env kv_doc = (None, snd (ensureClone kv_env kv_doc))"
    by (simp add: ensureClone_def kv_defs)
  have h3: "\<forall>s. IInt 42 \<noteq> IString s" by simp
  from C10_message_panic [OF h1 h2 h3, of "IString ''x''" "[]" kv_noop] h1
  show ?thesis by simp
qed

end
